theory Spec2Isabelle
  imports Main "HOL-Library.Word"
begin

unbundle bit_operations_syntax

section \<open>Sigfox MCU API (src/src/sigfox/mcu\_api.c)\<close>

subsection \<open>Types and status codes\<close>

type_synonym sfx_u8 = "8 word"
type_synonym sfx_u16 = "16 word"
type_synonym sfx_u32 = "32 word"

text \<open>
  The functions of mcu\_api.c return an \<open>sfx_u8\<close> code. The codes are named constants
  of the Sigfox library headers, which are not among the sources; only their names are
  used by the code, so they are the constructors of a datatype (distinct names, distinct
  codes).
\<close>

datatype sfx_error_t =
    SFX_ERR_NONE
  | MCU_ERR_API_MALLOC
  | MCU_ERR_API_AES
  | MCU_ERR_API_GETNVMEM
  | MCU_ERR_API_SETNVMEM
  | MCU_ERR_API_TIMER_STOP
  | MCU_ERR_API_TIMER_END

text \<open>\<open>NVM_status_t\<close> of nvm.h and \<open>AES_status_t\<close> of aes.h, constructor by constructor.\<close>

datatype NVM_status_t =
    NVM_SUCCESS
  | NVM_ERROR_NULL_PARAMETER
  | NVM_ERROR_ADDRESS
  | NVM_ERROR_UNLOCK
  | NVM_ERROR_LOCK
  | NVM_ERROR_WRITE
  | NVM_ERROR_BASE_LAST

datatype AES_status_t =
    AES_SUCCESS
  | AES_ERROR_TIMEOUT
  | AES_ERROR_BASE_LAST

text \<open>
  rtc.h is not among the sources. The code only compares an \<open>RTC_status_t\<close> with
  \<open>RTC_SUCCESS\<close>, so every other code is \<open>RTC_ERROR n\<close>.
\<close>

datatype RTC_status_t = RTC_SUCCESS | RTC_ERROR nat

text \<open>\<open>MCU_API_MALLOC_BUFFER_SIZE\<close> (mcu\_api.c) and \<open>AES_BLOCK_SIZE\<close> (aes.h).\<close>

definition MCU_API_MALLOC_BUFFER_SIZE :: nat where
  "MCU_API_MALLOC_BUFFER_SIZE = 200"

definition AES_BLOCK_SIZE :: nat where
  "AES_BLOCK_SIZE = 16"

text \<open>\<open>NVM_address_t\<close> of nvm.h.\<close>

definition NVM_ADDRESS_SIGFOX_DEVICE_ID :: nat where
  "NVM_ADDRESS_SIGFOX_DEVICE_ID = 0"

definition NVM_ADDRESS_SIGFOX_DEVICE_KEY :: nat where
  "NVM_ADDRESS_SIGFOX_DEVICE_KEY = 4"

definition NVM_ADDRESS_SIGFOX_PN :: nat where
  "NVM_ADDRESS_SIGFOX_PN = 20"

definition NVM_ADDRESS_SIGFOX_MESSAGE_COUNTER :: nat where
  "NVM_ADDRESS_SIGFOX_MESSAGE_COUNTER = 22"

definition NVM_ADDRESS_SIGFOX_FH :: nat where
  "NVM_ADDRESS_SIGFOX_FH = 24"

definition NVM_ADDRESS_SIGFOX_RL :: nat where
  "NVM_ADDRESS_SIGFOX_RL = 26"

definition NVM_ADDRESS_LAST :: nat where
  "NVM_ADDRESS_LAST = 27"

subsection \<open>State\<close>

text \<open>
  \<open>MCU_API_context_t\<close>, the static context \<open>mcu_api_ctx\<close> of mcu\_api.c.
\<close>

record MCU_API_context_t =
  malloc_buf :: "sfx_u8 list"
  timer_duration_seconds :: sfx_u32

text \<open>
  A pointer handed to the Sigfox library: null, the address of an element of
  \<open>mcu_api_ctx.malloc_buf\<close>, or any other address.
\<close>

datatype pointer_t = Ptr_null | Ptr_malloc_buf nat | Ptr_other nat

text \<open>
  Calls into the peripheral drivers, in the order the code issues them. The drivers
  (iwdg.c, rtc.c, pwr.c, exti.c, aes.c, nvm.c) are not among the sources: a call of the
  watchdog, RTC, power, EXTI and AES drivers is recorded in the trace (an AES call with
  its input block, initialization vector and key), and the status a fallible driver call
  returns is taken from a queue of the statuses the hardware is going to report (an
  empty queue reports success). The non-volatile memory is a byte store of \<open>nvm_size\<close>
  bytes.
\<close>

datatype hw_event =
    Ev_IWDG_reload
  | Ev_RTC_stop_wakeup_timer
  | Ev_RTC_start_wakeup_timer sfx_u32
  | Ev_PWR_enter_stop_mode
  | Ev_RTC_clear_wakeup_timer_flag
  | Ev_EXTI_clear_all_flags
  | Ev_AES_encrypt "sfx_u8 list" "sfx_u8 list" "sfx_u8 list"

record mcu_state =
  mcu_api_ctx :: MCU_API_context_t
  nvm_size :: nat
  nvm_mem :: "nat \<Rightarrow> sfx_u8"
  nvm_status_queue :: "NVM_status_t list"
  rtc_status_queue :: "RTC_status_t list"
  aes_status_queue :: "AES_status_t list"
  trace :: "hw_event list"

subsection \<open>MCU\_API\_malloc and MCU\_API\_free\<close>

text \<open>
  \<open>MCU_API_malloc sz returned_pointer\<close>, where \<open>sz\<close> is the source's \<open>size\<close>: the
  second argument is the value of \<open>*returned_pointer\<close> before the call, the second
  component of the result its value after the call.
\<close>

definition MCU_API_malloc ::
  "sfx_u16 \<Rightarrow> pointer_t \<Rightarrow> mcu_state \<Rightarrow> (sfx_error_t \<times> pointer_t) \<times> mcu_state" where
  "MCU_API_malloc sz returned_pointer s =
     (if unat sz > MCU_API_MALLOC_BUFFER_SIZE then ((MCU_ERR_API_MALLOC, returned_pointer), s)
      else ((SFX_ERR_NONE, Ptr_malloc_buf 0), s))"

definition MCU_API_free :: "pointer_t \<Rightarrow> mcu_state \<Rightarrow> sfx_error_t \<times> mcu_state" where
  "MCU_API_free ptr s = (SFX_ERR_NONE, s)"

text \<open>
  A state to run the functions on: the static context zero-initialised, an all-zero store
  of 1024 bytes, empty status queues (every driver call succeeds) and an empty trace.
\<close>

definition mcu_state_init :: mcu_state where
  "mcu_state_init =
     \<lparr>mcu_api_ctx = \<lparr>malloc_buf = replicate 200 0, timer_duration_seconds = 0\<rparr>,
      nvm_size = 1024,
      nvm_mem = (\<lambda>a. 0),
      nvm_status_queue = [],
      rtc_status_queue = [],
      aes_status_queue = [],
      trace = []\<rparr>"

subsection \<open>Peripheral drivers called by the timer functions\<close>

text \<open>
  Modelled from the spec: iwdg.c, rtc.c, pwr.c and exti.c are not among the sources.
  Each call is recorded in the trace. \<open>RTC_stop_wakeup_timer\<close> and
  \<open>RTC_start_wakeup_timer\<close> return a status ("timer arm/disarm failure"): the next
  status of \<open>rtc_status_queue\<close>, or success when the queue is empty. The other calls
  return nothing. \<open>PWR_enter_stop_mode\<close> returns when the MCU wakes up; the time spent
  asleep is not part of the model.
\<close>

definition log_event :: "hw_event \<Rightarrow> mcu_state \<Rightarrow> mcu_state" where
  "log_event e s = s\<lparr>trace := trace s @ [e]\<rparr>"

definition next_rtc_status :: "mcu_state \<Rightarrow> RTC_status_t \<times> mcu_state" where
  "next_rtc_status s =
     (case rtc_status_queue s of
        [] \<Rightarrow> (RTC_SUCCESS, s)
      | st # rest \<Rightarrow> (st, s\<lparr>rtc_status_queue := rest\<rparr>))"

definition IWDG_reload :: "mcu_state \<Rightarrow> mcu_state" where
  "IWDG_reload s = log_event Ev_IWDG_reload s"

definition RTC_stop_wakeup_timer :: "mcu_state \<Rightarrow> RTC_status_t \<times> mcu_state" where
  "RTC_stop_wakeup_timer s = next_rtc_status (log_event Ev_RTC_stop_wakeup_timer s)"

definition RTC_start_wakeup_timer :: "sfx_u32 \<Rightarrow> mcu_state \<Rightarrow> RTC_status_t \<times> mcu_state" where
  "RTC_start_wakeup_timer delay_seconds s =
     next_rtc_status (log_event (Ev_RTC_start_wakeup_timer delay_seconds) s)"

definition PWR_enter_stop_mode :: "mcu_state \<Rightarrow> mcu_state" where
  "PWR_enter_stop_mode s = log_event Ev_PWR_enter_stop_mode s"

definition RTC_clear_wakeup_timer_flag :: "mcu_state \<Rightarrow> mcu_state" where
  "RTC_clear_wakeup_timer_flag s = log_event Ev_RTC_clear_wakeup_timer_flag s"

definition EXTI_clear_all_flags :: "mcu_state \<Rightarrow> mcu_state" where
  "EXTI_clear_all_flags s = log_event Ev_EXTI_clear_all_flags s"

subsection \<open>MCU\_API\_timer\_start, MCU\_API\_timer\_stop, MCU\_API\_timer\_wait\_for\_end\<close>

definition MCU_API_timer_start :: "sfx_u32 \<Rightarrow> mcu_state \<Rightarrow> sfx_error_t \<times> mcu_state" where
  "MCU_API_timer_start time_duration_in_s s =
     (SFX_ERR_NONE,
      s\<lparr>mcu_api_ctx := (mcu_api_ctx s)\<lparr>timer_duration_seconds := time_duration_in_s\<rparr>\<rparr>)"

definition MCU_API_timer_stop :: "mcu_state \<Rightarrow> sfx_error_t \<times> mcu_state" where
  "MCU_API_timer_stop s =
     (let (rtc_status, s1) = RTC_stop_wakeup_timer s
      in if rtc_status \<noteq> RTC_SUCCESS then (MCU_ERR_API_TIMER_STOP, s1)
         else (SFX_ERR_NONE, s1))"

text \<open>The label \<open>errors\<close> of \<open>MCU_API_timer_wait_for_end\<close>: the status of the stop is dropped.\<close>

definition timer_wait_errors :: "mcu_state \<Rightarrow> sfx_error_t \<times> mcu_state" where
  "timer_wait_errors s =
     (let (rtc_status, s1) = RTC_stop_wakeup_timer s in (MCU_ERR_API_TIMER_END, s1))"

text \<open>
  The \<open>while\<close> loop of \<open>MCU_API_timer_wait_for_end\<close>. \<open>IWDG_REFRESH_PERIOD_SECONDS\<close>
  is a macro of iwdg.h, which is not among the sources: it is the first argument, an
  unsigned 32-bit value as \<open>remaining_delay\<close> it is compared with. With a period of 0
  and working RTC calls the loop never ends: the result is \<open>None\<close>.
\<close>

partial_function (option) timer_wait_loop ::
  "sfx_u32 \<Rightarrow> sfx_u32 \<Rightarrow> mcu_state \<Rightarrow> (sfx_error_t \<times> mcu_state) option" where
  "timer_wait_loop IWDG_REFRESH_PERIOD_SECONDS remaining_delay s =
     (if remaining_delay > 0 then
        (let sub_delay = (if remaining_delay > IWDG_REFRESH_PERIOD_SECONDS
                          then IWDG_REFRESH_PERIOD_SECONDS else remaining_delay);
             remaining_delay1 = remaining_delay - sub_delay;
             (rtc_status, s1) = RTC_stop_wakeup_timer s
         in if rtc_status \<noteq> RTC_SUCCESS then Some (timer_wait_errors s1)
            else (let (rtc_status2, s2) = RTC_start_wakeup_timer sub_delay s1
                  in if rtc_status2 \<noteq> RTC_SUCCESS then Some (timer_wait_errors s2)
                     else timer_wait_loop IWDG_REFRESH_PERIOD_SECONDS remaining_delay1
                            (EXTI_clear_all_flags (RTC_clear_wakeup_timer_flag
                               (IWDG_reload (PWR_enter_stop_mode s2))))))
      else Some (SFX_ERR_NONE, s))"

declare timer_wait_loop.simps [code]

definition MCU_API_timer_wait_for_end ::
  "sfx_u32 \<Rightarrow> mcu_state \<Rightarrow> (sfx_error_t \<times> mcu_state) option" where
  "MCU_API_timer_wait_for_end IWDG_REFRESH_PERIOD_SECONDS s =
     timer_wait_loop IWDG_REFRESH_PERIOD_SECONDS
       (timer_duration_seconds (mcu_api_ctx s)) (IWDG_reload s)"

subsection \<open>Non-volatile memory driver\<close>

text \<open>
  Modelled from the spec: nvm.c is not among the sources. "Every access first validates
  address < SPACE_SIZE; out-of-range access fails with AddressOutOfRange without touching
  hardware"; a read returns the stored byte; a write stores the byte between an unlock
  and a lock, and "if the lock step itself fails, the write already performed is not
  rolled back". The space size is \<open>nvm_size\<close>. The status of an access in range is the
  next status of \<open>nvm_status_queue\<close> (success when the queue is empty). A failed read
  leaves the byte \<open>*data\<close> as it was (second argument of \<open>NVM_read_byte\<close>).
\<close>

definition next_nvm_status :: "mcu_state \<Rightarrow> NVM_status_t \<times> mcu_state" where
  "next_nvm_status s =
     (case nvm_status_queue s of
        [] \<Rightarrow> (NVM_SUCCESS, s)
      | st # rest \<Rightarrow> (st, s\<lparr>nvm_status_queue := rest\<rparr>))"

definition NVM_read_byte ::
  "nat \<Rightarrow> sfx_u8 \<Rightarrow> mcu_state \<Rightarrow> (NVM_status_t \<times> sfx_u8) \<times> mcu_state" where
  "NVM_read_byte address_offset data s =
     (if address_offset \<ge> nvm_size s then ((NVM_ERROR_ADDRESS, data), s)
      else (let (st, s1) = next_nvm_status s
            in ((st, if st = NVM_SUCCESS then nvm_mem s address_offset else data), s1)))"

definition NVM_write_byte :: "nat \<Rightarrow> sfx_u8 \<Rightarrow> mcu_state \<Rightarrow> NVM_status_t \<times> mcu_state" where
  "NVM_write_byte address_offset data s =
     (if address_offset \<ge> nvm_size s then (NVM_ERROR_ADDRESS, s)
      else (let (st, s1) = next_nvm_status s
            in (st, if st = NVM_SUCCESS \<or> st = NVM_ERROR_LOCK
                    then s1\<lparr>nvm_mem := (nvm_mem s1)(address_offset := data)\<rparr> else s1)))"

subsection \<open>MCU\_API\_get\_nv\_mem and MCU\_API\_set\_nv\_mem\<close>

text \<open>
  Modelled from the spec: the offsets \<open>SFX_NVMEM_*\<close> of the record are constants of
  the Sigfox library header sigfox\_types.h, which is not among the sources. Their values
  are those of the layout drawn in the comment at the head of both functions: PN at
  bytes 0 and 1, SEQ at bytes 2 and 3, FH at bytes 4 and 5, RL at byte 6.
\<close>

definition SFX_NVMEM_PN :: nat where
  "SFX_NVMEM_PN = 0"

definition SFX_NVMEM_MSG_COUNTER :: nat where
  "SFX_NVMEM_MSG_COUNTER = 2"

definition SFX_NVMEM_FH :: nat where
  "SFX_NVMEM_FH = 4"

definition SFX_NVMEM_RL :: nat where
  "SFX_NVMEM_RL = 6"

definition SFX_NVMEM_BLOCK_SIZE :: nat where
  "SFX_NVMEM_BLOCK_SIZE = 7"

text \<open>
  \<open>NVM_read_byte(address_offset, &(read_data[idx]))\<close>: the byte is read into the
  element \<open>idx\<close> of the buffer.
\<close>

definition nvm_read_into ::
  "nat \<Rightarrow> nat \<Rightarrow> sfx_u8 list \<Rightarrow> mcu_state \<Rightarrow> (NVM_status_t \<times> sfx_u8 list) \<times> mcu_state" where
  "nvm_read_into address_offset idx read_data s =
     (let ((nvm_status, b), s1) = NVM_read_byte address_offset (read_data ! idx) s
      in ((nvm_status, read_data[idx := b]), s1))"

definition MCU_API_get_nv_mem ::
  "sfx_u8 list \<Rightarrow> mcu_state \<Rightarrow> (sfx_error_t \<times> sfx_u8 list) \<times> mcu_state" where
  "MCU_API_get_nv_mem read_data s =
     (let ((nvm_status, read_data1), s1) =
            nvm_read_into (NVM_ADDRESS_SIGFOX_PN + 0) (SFX_NVMEM_PN + 0) read_data s
      in if nvm_status \<noteq> NVM_SUCCESS then ((MCU_ERR_API_GETNVMEM, read_data1), s1) else
     (let ((nvm_status, read_data2), s2) =
            nvm_read_into (NVM_ADDRESS_SIGFOX_PN + 1) (SFX_NVMEM_PN + 1) read_data1 s1
      in if nvm_status \<noteq> NVM_SUCCESS then ((MCU_ERR_API_GETNVMEM, read_data2), s2) else
     (let ((nvm_status, read_data3), s3) =
            nvm_read_into (NVM_ADDRESS_SIGFOX_MESSAGE_COUNTER + 0) (SFX_NVMEM_MSG_COUNTER + 0) read_data2 s2
      in if nvm_status \<noteq> NVM_SUCCESS then ((MCU_ERR_API_GETNVMEM, read_data3), s3) else
     (let ((nvm_status, read_data4), s4) =
            nvm_read_into (NVM_ADDRESS_SIGFOX_MESSAGE_COUNTER + 1) (SFX_NVMEM_MSG_COUNTER + 1) read_data3 s3
      in if nvm_status \<noteq> NVM_SUCCESS then ((MCU_ERR_API_GETNVMEM, read_data4), s4) else
     (let ((nvm_status, read_data5), s5) =
            nvm_read_into (NVM_ADDRESS_SIGFOX_FH + 0) (SFX_NVMEM_FH + 0) read_data4 s4
      in if nvm_status \<noteq> NVM_SUCCESS then ((MCU_ERR_API_GETNVMEM, read_data5), s5) else
     (let ((nvm_status, read_data6), s6) =
            nvm_read_into (NVM_ADDRESS_SIGFOX_FH + 1) (SFX_NVMEM_FH + 1) read_data5 s5
      in if nvm_status \<noteq> NVM_SUCCESS then ((MCU_ERR_API_GETNVMEM, read_data6), s6) else
     (let ((nvm_status, read_data7), s7) =
            nvm_read_into NVM_ADDRESS_SIGFOX_RL SFX_NVMEM_RL read_data6 s6
      in if nvm_status \<noteq> NVM_SUCCESS then ((MCU_ERR_API_GETNVMEM, read_data7), s7) else
     ((SFX_ERR_NONE, read_data7), s7))))))))"

definition MCU_API_set_nv_mem :: "sfx_u8 list \<Rightarrow> mcu_state \<Rightarrow> sfx_error_t \<times> mcu_state" where
  "MCU_API_set_nv_mem data_to_write s =
     (let (nvm_status, s1) =
            NVM_write_byte (NVM_ADDRESS_SIGFOX_PN + 0) (data_to_write ! (SFX_NVMEM_PN + 0)) s
      in if nvm_status \<noteq> NVM_SUCCESS then (MCU_ERR_API_SETNVMEM, s1) else
     (let (nvm_status, s2) =
            NVM_write_byte (NVM_ADDRESS_SIGFOX_PN + 1) (data_to_write ! (SFX_NVMEM_PN + 1)) s1
      in if nvm_status \<noteq> NVM_SUCCESS then (MCU_ERR_API_SETNVMEM, s2) else
     (let (nvm_status, s3) =
            NVM_write_byte (NVM_ADDRESS_SIGFOX_MESSAGE_COUNTER + 0) (data_to_write ! (SFX_NVMEM_MSG_COUNTER + 0)) s2
      in if nvm_status \<noteq> NVM_SUCCESS then (MCU_ERR_API_SETNVMEM, s3) else
     (let (nvm_status, s4) =
            NVM_write_byte (NVM_ADDRESS_SIGFOX_MESSAGE_COUNTER + 1) (data_to_write ! (SFX_NVMEM_MSG_COUNTER + 1)) s3
      in if nvm_status \<noteq> NVM_SUCCESS then (MCU_ERR_API_SETNVMEM, s4) else
     (let (nvm_status, s5) =
            NVM_write_byte (NVM_ADDRESS_SIGFOX_FH + 0) (data_to_write ! (SFX_NVMEM_FH + 0)) s4
      in if nvm_status \<noteq> NVM_SUCCESS then (MCU_ERR_API_SETNVMEM, s5) else
     (let (nvm_status, s6) =
            NVM_write_byte (NVM_ADDRESS_SIGFOX_FH + 1) (data_to_write ! (SFX_NVMEM_FH + 1)) s5
      in if nvm_status \<noteq> NVM_SUCCESS then (MCU_ERR_API_SETNVMEM, s6) else
     (let (nvm_status, s7) =
            NVM_write_byte NVM_ADDRESS_SIGFOX_RL (data_to_write ! SFX_NVMEM_RL) s6
      in if nvm_status \<noteq> NVM_SUCCESS then (MCU_ERR_API_SETNVMEM, s7) else
     (SFX_ERR_NONE, s7))))))))"

text \<open>A store whose byte at address \<open>a\<close> is \<open>a\<close>, to run the functions on.\<close>

definition nvm_test_state :: mcu_state where
  "nvm_test_state = mcu_state_init\<lparr>nvm_mem := of_nat\<rparr>"

subsection \<open>MCU\_API\_aes\_128\_cbc\_encrypt\<close>

text \<open>
  \<open>sfx_credentials_use_key_t\<close> is an enumeration of the Sigfox library header
  sigfox\_types.h, which is not among the sources. The code names two of its values; a C
  enumeration can hold any other integer, here \<open>CREDENTIALS_OTHER v\<close>.
\<close>

datatype sfx_credentials_use_key_t =
    CREDENTIALS_PRIVATE_KEY
  | CREDENTIALS_KEY_IN_ARGUMENT
  | CREDENTIALS_OTHER nat

text \<open>
  Modelled from the spec: aes.c is not among the sources. "\<open>encrypt(block, iv, key) \<rightarrow> block\<close>,
  bounded by a hardware timeout that, on expiry, fails with EncryptionTimeout and discards
  any partial output". The block cipher itself is the parameter \<open>cipher\<close> (input block,
  initialization vector, key); the status of a call is the next status of
  \<open>aes_status_queue\<close> (success when the queue is empty); a failed call leaves
  \<open>data_out\<close> as it was. Each call is recorded in the trace.
\<close>

type_synonym aes_cipher = "sfx_u8 list \<Rightarrow> sfx_u8 list \<Rightarrow> sfx_u8 list \<Rightarrow> sfx_u8 list"

definition AES_encrypt ::
  "aes_cipher \<Rightarrow> sfx_u8 list \<Rightarrow> sfx_u8 list \<Rightarrow> sfx_u8 list \<Rightarrow> sfx_u8 list \<Rightarrow> mcu_state
   \<Rightarrow> (AES_status_t \<times> sfx_u8 list) \<times> mcu_state" where
  "AES_encrypt cipher data_in data_out init_vector key s =
     (let s1 = log_event (Ev_AES_encrypt data_in init_vector key) s
      in case aes_status_queue s1 of
           [] \<Rightarrow> ((AES_SUCCESS, cipher data_in init_vector key), s1)
         | st # rest \<Rightarrow>
             ((st, if st = AES_SUCCESS then cipher data_in init_vector key else data_out),
              s1\<lparr>aes_status_queue := rest\<rparr>))"

text \<open>
  The loop of the case \<open>CREDENTIALS_PRIVATE_KEY\<close>, from \<open>byte_idx\<close> on: one
  \<open>NVM_read_byte\<close> into \<open>key_byte\<close> per key byte, leaving at the first failure.
\<close>

function retrieve_device_key ::
  "nat \<Rightarrow> sfx_u8 \<Rightarrow> sfx_u8 list \<Rightarrow> mcu_state \<Rightarrow> (NVM_status_t \<times> sfx_u8 list) \<times> mcu_state" where
  "retrieve_device_key byte_idx key_byte local_key s =
     (if byte_idx < AES_BLOCK_SIZE then
        (let ((nvm_status, key_byte1), s1) =
               NVM_read_byte (NVM_ADDRESS_SIGFOX_DEVICE_KEY + byte_idx) key_byte s
         in if nvm_status \<noteq> NVM_SUCCESS then ((nvm_status, local_key), s1)
            else retrieve_device_key (byte_idx + 1) key_byte1
                   (local_key[byte_idx := key_byte1]) s1)
      else ((NVM_SUCCESS, local_key), s))"
  by pat_completeness auto
termination
  by (relation "measure (\<lambda>(byte_idx, key_byte, local_key, s). AES_BLOCK_SIZE - byte_idx)") auto

declare retrieve_device_key.simps [simp del]

text \<open>
  The three byte loops of the body of the block loop: \<open>data_block buf block_idx\<close> is
  the 16 bytes read from \<open>buf[(block_idx * AES_BLOCK_SIZE) + byte_idx]\<close>, and
  \<open>write_block buf block_idx data_out\<close> stores the 16 bytes of \<open>data_out\<close> at the same
  indexes of \<open>buf\<close>.
\<close>

definition data_block :: "sfx_u8 list \<Rightarrow> nat \<Rightarrow> sfx_u8 list" where
  "data_block buf block_idx =
     map (\<lambda>byte_idx. buf ! (block_idx * AES_BLOCK_SIZE + byte_idx)) [0..<AES_BLOCK_SIZE]"

definition write_block :: "sfx_u8 list \<Rightarrow> nat \<Rightarrow> sfx_u8 list \<Rightarrow> sfx_u8 list" where
  "write_block buf block_idx data_out =
     fold (\<lambda>byte_idx b. b[block_idx * AES_BLOCK_SIZE + byte_idx := data_out ! byte_idx])
       [0..<AES_BLOCK_SIZE] buf"

text \<open>
  The block loop, from \<open>block_idx\<close> on; \<open>nblocks\<close> is \<open>aes_block_len / AES_BLOCK_SIZE\<close>.
  \<open>data_out\<close> is carried from one block to the next; \<open>data_in\<close> and \<open>init_vector\<close>
  are filled anew for each block.
\<close>

function encrypt_blocks ::
  "aes_cipher \<Rightarrow> nat \<Rightarrow> nat \<Rightarrow> sfx_u8 list \<Rightarrow> sfx_u8 list \<Rightarrow> sfx_u8 list \<Rightarrow> sfx_u8 list
   \<Rightarrow> mcu_state \<Rightarrow> (sfx_error_t \<times> sfx_u8 list) \<times> mcu_state" where
  "encrypt_blocks cipher nblocks block_idx data_to_encrypt local_key data_out encrypted_data s =
     (if block_idx < nblocks then
        (let data_in = data_block data_to_encrypt block_idx;
             init_vector = map (\<lambda>byte_idx. data_out ! byte_idx) [0..<AES_BLOCK_SIZE];
             ((aes_status, data_out1), s1) =
               AES_encrypt cipher data_in data_out init_vector local_key s
         in if aes_status \<noteq> AES_SUCCESS then ((MCU_ERR_API_AES, encrypted_data), s1)
            else encrypt_blocks cipher nblocks (block_idx + 1) data_to_encrypt local_key
                   data_out1 (write_block encrypted_data block_idx data_out1) s1)
      else ((SFX_ERR_NONE, encrypted_data), s))"
  by pat_completeness auto
termination
  by (relation "measure (\<lambda>(cipher, nblocks, block_idx, rest). nblocks - block_idx)") auto

declare encrypt_blocks.simps [simp del]

definition MCU_API_aes_128_cbc_encrypt ::
  "aes_cipher \<Rightarrow> sfx_u8 list \<Rightarrow> sfx_u8 list \<Rightarrow> sfx_u8 \<Rightarrow> sfx_u8 list
   \<Rightarrow> sfx_credentials_use_key_t \<Rightarrow> mcu_state \<Rightarrow> (sfx_error_t \<times> sfx_u8 list) \<times> mcu_state" where
  "MCU_API_aes_128_cbc_encrypt cipher encrypted_data data_to_encrypt aes_block_len key use_key s =
     (let local_key = replicate AES_BLOCK_SIZE 0;
          data_out = replicate AES_BLOCK_SIZE 0;
          key_byte = 0
      in case use_key of
           CREDENTIALS_PRIVATE_KEY \<Rightarrow>
             (let ((nvm_status, local_key1), s1) = retrieve_device_key 0 key_byte local_key s
              in if nvm_status \<noteq> NVM_SUCCESS then ((MCU_ERR_API_AES, encrypted_data), s1)
                 else encrypt_blocks cipher (unat aes_block_len div AES_BLOCK_SIZE) 0
                        data_to_encrypt local_key1 data_out encrypted_data s1)
         | CREDENTIALS_KEY_IN_ARGUMENT \<Rightarrow>
             (let local_key1 = fold (\<lambda>byte_idx k. k[byte_idx := key ! byte_idx])
                                 [0..<AES_BLOCK_SIZE] local_key
              in encrypt_blocks cipher (unat aes_block_len div AES_BLOCK_SIZE) 0
                   data_to_encrypt local_key1 data_out encrypted_data s)
         | CREDENTIALS_OTHER v \<Rightarrow> ((MCU_ERR_API_AES, encrypted_data), s))"

subsection \<open>Cipher block chaining, as the specification words it\<close>

text \<open>
  "Encrypting a multi-block message requires feeding each block's ciphertext as the next
  block's initialization vector, strictly in order": the ciphertext blocks of the
  plaintext blocks \<open>ps\<close> under \<open>key\<close>, starting from the vector \<open>iv\<close>, the AES calls
  this takes, and the buffer after the ciphertext blocks \<open>cs\<close> have been stored from
  block \<open>block_idx\<close> on.
\<close>

fun cbc_chain :: "aes_cipher \<Rightarrow> sfx_u8 list \<Rightarrow> sfx_u8 list \<Rightarrow> sfx_u8 list list \<Rightarrow> sfx_u8 list list" where
  "cbc_chain cipher key iv [] = []"
| "cbc_chain cipher key iv (p # ps) = cipher p iv key # cbc_chain cipher key (cipher p iv key) ps"

fun aes_events :: "aes_cipher \<Rightarrow> sfx_u8 list \<Rightarrow> sfx_u8 list \<Rightarrow> sfx_u8 list list \<Rightarrow> hw_event list" where
  "aes_events cipher key iv [] = []"
| "aes_events cipher key iv (p # ps) =
     Ev_AES_encrypt p iv key # aes_events cipher key (cipher p iv key) ps"

fun write_blocks :: "sfx_u8 list \<Rightarrow> nat \<Rightarrow> sfx_u8 list list \<Rightarrow> sfx_u8 list" where
  "write_blocks buf block_idx [] = buf"
| "write_blocks buf block_idx (c # cs) = write_blocks (write_block buf block_idx c) (block_idx + 1) cs"

text \<open>A block cipher returns 16 bytes.\<close>

definition cipher_wf :: "aes_cipher \<Rightarrow> bool" where
  "cipher_wf cipher = (\<forall>data_in init_vector key. length (cipher data_in init_vector key) = AES_BLOCK_SIZE)"

text \<open>
  The key a mode selects: the 16 bytes of the store from \<open>NVM_ADDRESS_SIGFOX_DEVICE_KEY\<close>
  on, or the first 16 bytes of the argument. \<open>key_available\<close>: the mode is one of the
  two and, for the private key, all 16 reads succeed.
\<close>

definition device_key_bytes :: "mcu_state \<Rightarrow> sfx_u8 list" where
  "device_key_bytes s =
     map (\<lambda>byte_idx. nvm_mem s (NVM_ADDRESS_SIGFOX_DEVICE_KEY + byte_idx)) [0..<AES_BLOCK_SIZE]"

definition key_argument_bytes :: "sfx_u8 list \<Rightarrow> sfx_u8 list" where
  "key_argument_bytes key = map (\<lambda>byte_idx. key ! byte_idx) [0..<AES_BLOCK_SIZE]"

definition selected_key :: "sfx_credentials_use_key_t \<Rightarrow> sfx_u8 list \<Rightarrow> mcu_state \<Rightarrow> sfx_u8 list" where
  "selected_key use_key key s =
     (case use_key of
        CREDENTIALS_PRIVATE_KEY \<Rightarrow> device_key_bytes s
      | CREDENTIALS_KEY_IN_ARGUMENT \<Rightarrow> key_argument_bytes key
      | CREDENTIALS_OTHER v \<Rightarrow> replicate AES_BLOCK_SIZE 0)"

definition key_available :: "sfx_credentials_use_key_t \<Rightarrow> mcu_state \<Rightarrow> bool" where
  "key_available use_key s =
     (case use_key of
        CREDENTIALS_PRIVATE_KEY \<Rightarrow>
          fst (fst (retrieve_device_key 0 0 (replicate AES_BLOCK_SIZE 0) s)) = NVM_SUCCESS
      | CREDENTIALS_KEY_IN_ARGUMENT \<Rightarrow> True
      | CREDENTIALS_OTHER v \<Rightarrow> False)"

text \<open>The first \<open>k\<close> statuses of the AES and of the NVM driver are successes; an AES call with key \<open>k\<close>.\<close>

definition aes_all_success :: "nat \<Rightarrow> AES_status_t list \<Rightarrow> bool" where
  "aes_all_success k q = list_all (\<lambda>x. x = AES_SUCCESS) (take k q)"

definition nvm_all_success :: "nat \<Rightarrow> NVM_status_t list \<Rightarrow> bool" where
  "nvm_all_success k q = list_all (\<lambda>x. x = NVM_SUCCESS) (take k q)"

fun uses_key :: "sfx_u8 list \<Rightarrow> hw_event \<Rightarrow> bool" where
  "uses_key k (Ev_AES_encrypt data_in init_vector key) = (key = k)"
| "uses_key k e = False"

text \<open>
  A stand-in block cipher and inputs to run the function on: the cipher adds, byte by
  byte, the key and 1 to the exclusive or of the block and the vector.
\<close>

definition toy_cipher :: aes_cipher where
  "toy_cipher data_in init_vector key =
     map (\<lambda>i. (data_in ! i XOR init_vector ! i) + key ! i + 1) [0..<AES_BLOCK_SIZE]"

definition aes_test_data :: "sfx_u8 list" where
  "aes_test_data = map of_nat [0..<32]"

definition aes_test_key :: "sfx_u8 list" where
  "aes_test_key = replicate 16 2"

subsection \<open>Reading the trace\<close>

text \<open>The durations the wake-up timer was started with, in order.\<close>

fun timer_starts :: "hw_event list \<Rightarrow> sfx_u32 list" where
  "timer_starts [] = []"
| "timer_starts (Ev_RTC_start_wakeup_timer d # es) = d # timer_starts es"
| "timer_starts (e # es) = timer_starts es"

text \<open>
  Whether the wake-up timer is left armed by a sequence of calls: the last of the start
  and stop calls decides, and \<open>a\<close> is the state before.
\<close>

fun timer_armed_after :: "bool \<Rightarrow> hw_event list \<Rightarrow> bool" where
  "timer_armed_after a [] = a"
| "timer_armed_after a (Ev_RTC_start_wakeup_timer d # es) = timer_armed_after True es"
| "timer_armed_after a (Ev_RTC_stop_wakeup_timer # es) = timer_armed_after False es"
| "timer_armed_after a (e # es) = timer_armed_after a es"

text \<open>The calls recorded between two states.\<close>

definition events_since :: "mcu_state \<Rightarrow> mcu_state \<Rightarrow> hw_event list" where
  "events_since s s' = drop (length (trace s)) (trace s')"

text \<open>The calls of one pass through the loop body that sleeps for \<open>d\<close> seconds.\<close>

definition sleep_cycle :: "sfx_u32 \<Rightarrow> hw_event list" where
  "sleep_cycle d =
     [Ev_RTC_stop_wakeup_timer, Ev_RTC_start_wakeup_timer d, Ev_PWR_enter_stop_mode,
      Ev_IWDG_reload, Ev_RTC_clear_wakeup_timer_flag, Ev_EXTI_clear_all_flags]"

definition sleep_cycles :: "nat list \<Rightarrow> hw_event list" where
  "sleep_cycles ds = concat (map (\<lambda>d. sleep_cycle (of_nat d)) ds)"

text \<open>The first \<open>k\<close> statuses the RTC driver is going to report are all successes.\<close>

definition rtc_all_success :: "nat \<Rightarrow> RTC_status_t list \<Rightarrow> bool" where
  "rtc_all_success k q = list_all (\<lambda>x. x = RTC_SUCCESS) (take k q)"

text \<open>
  The decomposition of a delay as the specification words it: "arm a wake timer for
  min(remaining, period) ... subtract the elapsed sub-interval from remaining; repeat
  until remaining is zero". (A period of 0 gives no decomposition.)
\<close>

function sub_intervals :: "nat \<Rightarrow> nat \<Rightarrow> nat list" where
  "sub_intervals period remaining =
     (if remaining = 0 \<or> period = 0 then []
      else min remaining period # sub_intervals period (remaining - min remaining period))"
  by pat_completeness auto
termination
  by (relation "measure (\<lambda>(period, remaining). remaining)") auto

declare sub_intervals.simps [simp del]

section \<open>DMA driver (src/src/peripherals/dma.c)\<close>

subsection \<open>Registers and state\<close>

text \<open>
  The memory-mapped registers the driver accesses (\<open>DMA1 -> ...\<close>, \<open>RCC -> AHBENR\<close>) are
  32-bit words that hold what the code last wrote; \<open>ISR\<close> is only read by the driver and
  is set by the hardware. \<open>dma1_channel3_tcif\<close> is the file's static flag. nvic.c and
  neom8n.c are not among the sources: the calls into them are recorded in order.
\<close>

datatype NVIC_interrupt_t = NVIC_IT_DMA1_CH_2_3 | NVIC_IT_DMA1_CH_4_7

datatype ext_call =
    Call_NVIC_set_priority NVIC_interrupt_t nat
  | Call_NVIC_enable_interrupt NVIC_interrupt_t
  | Call_NVIC_disable_interrupt NVIC_interrupt_t
  | Call_NEOM8N_switch_dma_buffer nat

record dma_state =
  dma1_channel3_tcif :: "8 word"
  DMA1_ISR :: "32 word"
  DMA1_IFCR :: "32 word"
  DMA1_CCR3 :: "32 word"
  DMA1_CNDTR3 :: "32 word"
  DMA1_CPAR3 :: "32 word"
  DMA1_CMAR3 :: "32 word"
  DMA1_CCR6 :: "32 word"
  DMA1_CNDTR6 :: "32 word"
  DMA1_CPAR6 :: "32 word"
  DMA1_CMAR6 :: "32 word"
  DMA1_CSELR :: "32 word"
  RCC_AHBENR :: "32 word"
  ext_calls :: "ext_call list"

text \<open>\<open>&(SPI1 -> DR)\<close>: the base address of spi\_reg.h plus the offset of the fourth word.\<close>

definition SPI1_DR_address :: "32 word" where
  "SPI1_DR_address = 0x40013000 + 12"

subsection \<open>Interrupt handlers\<close>

definition DMA1_Channel2_3_IRQHandler :: "dma_state \<Rightarrow> dma_state" where
  "DMA1_Channel2_3_IRQHandler s =
     (if (DMA1_ISR s AND push_bit 9 1) \<noteq> 0 then
        (let s1 = (if (DMA1_CCR3 s AND push_bit 1 1) \<noteq> 0
                   then s\<lparr>dma1_channel3_tcif := 1\<rparr> else s)
         in s1\<lparr>DMA1_IFCR := DMA1_IFCR s1 OR push_bit 9 1\<rparr>)
      else s)"

definition DMA1_Channel4_5_6_7_IRQHandler :: "dma_state \<Rightarrow> dma_state" where
  "DMA1_Channel4_5_6_7_IRQHandler s =
     (if (DMA1_ISR s AND push_bit 21 1) \<noteq> 0 then
        (let s1 = (if (DMA1_CCR6 s AND push_bit 1 1) \<noteq> 0
                   then s\<lparr>ext_calls := ext_calls s @ [Call_NEOM8N_switch_dma_buffer 0]\<rparr> else s)
         in s1\<lparr>DMA1_IFCR := DMA1_IFCR s1 OR push_bit 21 1\<rparr>)
      else s)"

subsection \<open>Channel 3 (SPI1 TX)\<close>

definition DMA1_init_channel3 :: "dma_state \<Rightarrow> dma_state" where
  "DMA1_init_channel3 s =
     (let s1 = s\<lparr>RCC_AHBENR := RCC_AHBENR s OR push_bit 0 1\<rparr>;
          s2 = s1\<lparr>DMA1_CCR3 := DMA1_CCR3 s1 OR push_bit 12 3\<rparr>;
          s3 = s2\<lparr>DMA1_CCR3 := DMA1_CCR3 s2 OR push_bit 7 1\<rparr>;
          s4 = s3\<lparr>DMA1_CCR3 := DMA1_CCR3 s3 OR push_bit 1 1\<rparr>;
          s5 = s4\<lparr>DMA1_CCR3 := DMA1_CCR3 s4 OR push_bit 4 1\<rparr>;
          s6 = s5\<lparr>DMA1_CPAR3 := SPI1_DR_address\<rparr>;
          s7 = s6\<lparr>DMA1_CSELR := DMA1_CSELR s6 AND NOT (push_bit 8 15)\<rparr>;
          s8 = s7\<lparr>DMA1_CSELR := DMA1_CSELR s7 OR push_bit 8 1\<rparr>;
          s9 = s8\<lparr>DMA1_IFCR := DMA1_IFCR s8 OR 0x00000F00\<rparr>
      in s9\<lparr>ext_calls := ext_calls s9 @ [Call_NVIC_set_priority NVIC_IT_DMA1_CH_2_3 1]\<rparr>)"

definition DMA1_start_channel3 :: "dma_state \<Rightarrow> dma_state" where
  "DMA1_start_channel3 s =
     (let s1 = s\<lparr>dma1_channel3_tcif := 0\<rparr>;
          s2 = s1\<lparr>DMA1_IFCR := DMA1_IFCR s1 OR 0x00000F00\<rparr>;
          s3 = s2\<lparr>ext_calls := ext_calls s2 @ [Call_NVIC_enable_interrupt NVIC_IT_DMA1_CH_2_3]\<rparr>
      in s3\<lparr>DMA1_CCR3 := DMA1_CCR3 s3 OR push_bit 0 1\<rparr>)"

definition DMA1_stop_channel3 :: "dma_state \<Rightarrow> dma_state" where
  "DMA1_stop_channel3 s =
     (let s1 = s\<lparr>dma1_channel3_tcif := 0\<rparr>;
          s2 = s1\<lparr>DMA1_CCR3 := DMA1_CCR3 s1 AND NOT (push_bit 0 1)\<rparr>
      in s2\<lparr>ext_calls := ext_calls s2 @ [Call_NVIC_disable_interrupt NVIC_IT_DMA1_CH_2_3]\<rparr>)"

definition DMA1_set_channel3_source_addr :: "32 word \<Rightarrow> 16 word \<Rightarrow> dma_state \<Rightarrow> dma_state" where
  "DMA1_set_channel3_source_addr source_buf_addr source_buf_size s =
     (let s1 = s\<lparr>DMA1_CMAR3 := source_buf_addr\<rparr>;
          s2 = s1\<lparr>DMA1_CNDTR3 := ucast source_buf_size\<rparr>
      in s2\<lparr>DMA1_IFCR := DMA1_IFCR s2 OR 0x00000F00\<rparr>)"

definition DMA1_get_channel3_status :: "dma_state \<Rightarrow> 8 word" where
  "DMA1_get_channel3_status s = dma1_channel3_tcif s"

subsection \<open>Channel 6 (LPUART1 RX)\<close>

text \<open>
  \<open>&(LPUART1 -> RDR)\<close> comes from lpuart\_reg.h, which is not among the sources: the
  address is the first argument of \<open>DMA1_init_channel6\<close>.
\<close>

definition DMA1_init_channel6 :: "32 word \<Rightarrow> dma_state \<Rightarrow> dma_state" where
  "DMA1_init_channel6 LPUART1_RDR_address s =
     (let s1 = s\<lparr>RCC_AHBENR := RCC_AHBENR s OR push_bit 0 1\<rparr>;
          s2 = s1\<lparr>DMA1_CCR6 := DMA1_CCR6 s1 OR push_bit 12 3\<rparr>;
          s3 = s2\<lparr>DMA1_CCR6 := DMA1_CCR6 s2 OR push_bit 7 1\<rparr>;
          s4 = s3\<lparr>DMA1_CCR6 := DMA1_CCR6 s3 OR push_bit 1 1\<rparr>;
          s5 = s4\<lparr>DMA1_CCR6 := DMA1_CCR6 s4 AND NOT (push_bit 4 1)\<rparr>;
          s6 = s5\<lparr>DMA1_CPAR6 := LPUART1_RDR_address\<rparr>;
          s7 = s6\<lparr>DMA1_CSELR := DMA1_CSELR s6 AND NOT (push_bit 20 15)\<rparr>;
          s8 = s7\<lparr>DMA1_CSELR := DMA1_CSELR s7 OR push_bit 20 5\<rparr>;
          s9 = s8\<lparr>DMA1_IFCR := DMA1_IFCR s8 OR 0x00F00000\<rparr>
      in s9\<lparr>ext_calls := ext_calls s9 @ [Call_NVIC_set_priority NVIC_IT_DMA1_CH_4_7 1]\<rparr>)"

definition DMA1_start_channel6 :: "dma_state \<Rightarrow> dma_state" where
  "DMA1_start_channel6 s =
     (let s1 = s\<lparr>DMA1_IFCR := DMA1_IFCR s OR 0x00F00000\<rparr>;
          s2 = s1\<lparr>ext_calls := ext_calls s1 @ [Call_NVIC_enable_interrupt NVIC_IT_DMA1_CH_4_7]\<rparr>
      in s2\<lparr>DMA1_CCR6 := DMA1_CCR6 s2 OR push_bit 0 1\<rparr>)"

definition DMA1_stop_channel6 :: "dma_state \<Rightarrow> dma_state" where
  "DMA1_stop_channel6 s =
     (let s1 = s\<lparr>DMA1_CCR6 := DMA1_CCR6 s AND NOT (push_bit 0 1)\<rparr>
      in s1\<lparr>ext_calls := ext_calls s1 @ [Call_NVIC_disable_interrupt NVIC_IT_DMA1_CH_4_7]\<rparr>)"

definition DMA1_set_channel6_dest_addr :: "32 word \<Rightarrow> 16 word \<Rightarrow> dma_state \<Rightarrow> dma_state" where
  "DMA1_set_channel6_dest_addr dest_buf_addr dest_buf_size s =
     (let s1 = s\<lparr>DMA1_CMAR6 := dest_buf_addr\<rparr>;
          s2 = s1\<lparr>DMA1_CNDTR6 := ucast dest_buf_size\<rparr>
      in s2\<lparr>DMA1_IFCR := DMA1_IFCR s2 OR 0x00F00000\<rparr>)"

definition DMA1_disable :: "dma_state \<Rightarrow> dma_state" where
  "DMA1_disable s =
     (let s1 = s\<lparr>ext_calls := ext_calls s @ [Call_NVIC_disable_interrupt NVIC_IT_DMA1_CH_2_3]\<rparr>;
          s2 = s1\<lparr>ext_calls := ext_calls s1 @ [Call_NVIC_disable_interrupt NVIC_IT_DMA1_CH_4_7]\<rparr>;
          s3 = s2\<lparr>DMA1_IFCR := DMA1_IFCR s2 OR 0x0FFFFFFF\<rparr>
      in s3\<lparr>RCC_AHBENR := RCC_AHBENR s3 AND NOT (push_bit 0 1)\<rparr>)"

subsection \<open>Call sequences\<close>

text \<open>
  Everything that can happen to the driver's state: a call of one of the functions of
  dma.c from the main flow, one of the two interrupt handlers running, or the hardware
  changing the interrupt status register (\<open>Hw_set_ISR\<close>).
\<close>

datatype dma_op =
    Op_init_channel3
  | Op_start_channel3
  | Op_stop_channel3
  | Op_set_channel3_source_addr "32 word" "16 word"
  | Op_get_channel3_status
  | Op_init_channel6 "32 word"
  | Op_start_channel6
  | Op_stop_channel6
  | Op_set_channel6_dest_addr "32 word" "16 word"
  | Op_disable
  | Irq_Channel2_3
  | Irq_Channel4_5_6_7
  | Hw_set_ISR "32 word"

fun dma_exec :: "dma_state \<Rightarrow> dma_op \<Rightarrow> dma_state" where
  "dma_exec s Op_init_channel3 = DMA1_init_channel3 s"
| "dma_exec s Op_start_channel3 = DMA1_start_channel3 s"
| "dma_exec s Op_stop_channel3 = DMA1_stop_channel3 s"
| "dma_exec s (Op_set_channel3_source_addr a n) = DMA1_set_channel3_source_addr a n s"
| "dma_exec s Op_get_channel3_status = s"
| "dma_exec s (Op_init_channel6 a) = DMA1_init_channel6 a s"
| "dma_exec s Op_start_channel6 = DMA1_start_channel6 s"
| "dma_exec s Op_stop_channel6 = DMA1_stop_channel6 s"
| "dma_exec s (Op_set_channel6_dest_addr a n) = DMA1_set_channel6_dest_addr a n s"
| "dma_exec s Op_disable = DMA1_disable s"
| "dma_exec s Irq_Channel2_3 = DMA1_Channel2_3_IRQHandler s"
| "dma_exec s Irq_Channel4_5_6_7 = DMA1_Channel4_5_6_7_IRQHandler s"
| "dma_exec s (Hw_set_ISR v) = s\<lparr>DMA1_ISR := v\<rparr>"

text \<open>The registers and the flag after reset (all zero).\<close>

definition dma_state_reset :: dma_state where
  "dma_state_reset =
     \<lparr>dma1_channel3_tcif = 0, DMA1_ISR = 0, DMA1_IFCR = 0, DMA1_CCR3 = 0, DMA1_CNDTR3 = 0,
      DMA1_CPAR3 = 0, DMA1_CMAR3 = 0, DMA1_CCR6 = 0, DMA1_CNDTR6 = 0, DMA1_CPAR6 = 0,
      DMA1_CMAR6 = 0, DMA1_CSELR = 0, RCC_AHBENR = 0, ext_calls = []\<rparr>"

section \<open>S2LP hardware interface (s2lp\_hw.c)\<close>

text \<open>
  Modelled from the spec: the status types of s2lp.h and spi.h and the macro
  \<open>SPI_exit_error\<close> of spi.h are not among the sources. A status is a number with
  success 0 (the first enumerator, as \<open>NVM_SUCCESS\<close> and \<open>AES_SUCCESS\<close> in nvm.h and
  aes.h), and the macro follows the propagation policy of the specification, "a calling
  layer combines a child's non-success status with its own error-domain identifier"
  (\<open>base + child_status\<close>) and the sibling macros \<open>NVM_status_check\<close> and
  \<open>AES_status_check\<close>: on a non-success \<open>spi_status\<close> it sets
  \<open>status = error_base + spi_status\<close> and jumps to \<open>errors\<close>. The result is
  \<open>Some\<close> of the new status when the jump is taken.
\<close>

definition S2LP_SUCCESS :: nat where
  "S2LP_SUCCESS = 0"

definition SPI_SUCCESS :: nat where
  "SPI_SUCCESS = 0"

definition SPI_exit_error :: "nat \<Rightarrow> nat \<Rightarrow> nat option" where
  "SPI_exit_error error_base spi_status =
     (if spi_status \<noteq> SPI_SUCCESS then Some (error_base + spi_status) else None)"

text \<open>
  gpio.c and spi.c are not among the sources. A call of \<open>GPIO_write\<close> on the chip-select
  pin sets the level of the pin; a call of \<open>SPI_write_read_8\<close> returns the next answer of
  the SPI driver, a status and the bytes received (success and zeros when the queue is
  empty); both are recorded in order.
\<close>

datatype s2lp_hw_event =
    Ev_GPIO_write_CS nat
  | Ev_SPI_write_read_8 "8 word list" "8 word"

record s2lp_hw_state =
  gpio_s2lp_cs :: nat
  spi_answers :: "(nat \<times> 8 word list) list"
  s2lp_hw_trace :: "s2lp_hw_event list"

definition GPIO_write_CS :: "nat \<Rightarrow> s2lp_hw_state \<Rightarrow> s2lp_hw_state" where
  "GPIO_write_CS level s =
     s\<lparr>gpio_s2lp_cs := level, s2lp_hw_trace := s2lp_hw_trace s @ [Ev_GPIO_write_CS level]\<rparr>"

definition SPI_write_read_8 ::
  "8 word list \<Rightarrow> 8 word list \<Rightarrow> 8 word \<Rightarrow> s2lp_hw_state \<Rightarrow> (nat \<times> 8 word list) \<times> s2lp_hw_state" where
  "SPI_write_read_8 tx_data rx_data transfer_size s =
     (let s1 = s\<lparr>s2lp_hw_trace := s2lp_hw_trace s @ [Ev_SPI_write_read_8 tx_data transfer_size]\<rparr>
      in case spi_answers s1 of
           [] \<Rightarrow> ((SPI_SUCCESS, replicate (unat transfer_size) 0), s1)
         | (st, rx) # rest \<Rightarrow>
             ((st, if st = SPI_SUCCESS then rx else rx_data), s1\<lparr>spi_answers := rest\<rparr>))"

text \<open>
  \<open>S2LP_ERROR_BASE_SPI\<close> is an enumerator of the missing s2lp.h: it is the first
  argument. The result is the returned status, the content of \<open>rx_data\<close> and the state.
\<close>

definition S2LP_HW_spi_write_read_8 ::
  "nat \<Rightarrow> 8 word list \<Rightarrow> 8 word list \<Rightarrow> 8 word \<Rightarrow> s2lp_hw_state
   \<Rightarrow> (nat \<times> 8 word list) \<times> s2lp_hw_state" where
  "S2LP_HW_spi_write_read_8 S2LP_ERROR_BASE_SPI tx_data rx_data transfer_size s =
     (let status = S2LP_SUCCESS;
          s1 = GPIO_write_CS 0 s;
          ((spi_status, rx_data1), s2) = SPI_write_read_8 tx_data rx_data transfer_size s1;
          status1 = (case SPI_exit_error S2LP_ERROR_BASE_SPI spi_status of
                       Some e \<Rightarrow> e | None \<Rightarrow> status);
          s3 = GPIO_write_CS 1 s2
      in ((status1, rx_data1), s3))"

text \<open>The status the SPI driver reports for the next transfer.\<close>

definition next_spi_status :: "s2lp_hw_state \<Rightarrow> nat" where
  "next_spi_status s = (case spi_answers s of [] \<Rightarrow> SPI_SUCCESS | (st, rx) # rest \<Rightarrow> st)"

section \<open>Theorems\<close>

subsection \<open>Static allocation\<close>

text \<open>
  C9. \<open>MCU_API_malloc\<close> succeeds exactly when the requested size is at most
  \<open>MCU_API_MALLOC_BUFFER_SIZE\<close> (200 bytes); every successful call returns the address
  of the first element of the same static buffer, whatever the size, the previous pointer
  value and the state, so two successful allocations alias the same memory; no call
  changes the state. \<open>MCU_API_free\<close> changes nothing and always returns success.
\<close>

theorem MCU_API_malloc_free_static_buffer:
  "MCU_API_MALLOC_BUFFER_SIZE = 200
   \<and> (fst (fst (MCU_API_malloc sz p s)) = SFX_ERR_NONE
        \<longleftrightarrow> unat sz \<le> MCU_API_MALLOC_BUFFER_SIZE)
   \<and> (fst (fst (MCU_API_malloc sz p s)) = SFX_ERR_NONE
        \<or> fst (MCU_API_malloc sz p s) = (MCU_ERR_API_MALLOC, p))
   \<and> (fst (fst (MCU_API_malloc sz1 p1 s1)) = SFX_ERR_NONE
        \<and> fst (fst (MCU_API_malloc sz2 p2 s2)) = SFX_ERR_NONE
      \<longrightarrow> snd (fst (MCU_API_malloc sz1 p1 s1)) = Ptr_malloc_buf 0
        \<and> snd (fst (MCU_API_malloc sz2 p2 s2)) = snd (fst (MCU_API_malloc sz1 p1 s1)))
   \<and> snd (MCU_API_malloc sz p s) = s
   \<and> MCU_API_free ptr s = (SFX_ERR_NONE, s)"
  by (simp add: MCU_API_malloc_def MCU_API_free_def MCU_API_MALLOC_BUFFER_SIZE_def)

theorem MCU_API_malloc_free_static_buffer_witness:
  "fst (fst (MCU_API_malloc 10 Ptr_null mcu_state_init)) = SFX_ERR_NONE
   \<and> fst (fst (MCU_API_malloc 200 (Ptr_other 7) mcu_state_init)) = SFX_ERR_NONE
   \<and> snd (fst (MCU_API_malloc 10 Ptr_null mcu_state_init)) = Ptr_malloc_buf 0
   \<and> snd (fst (MCU_API_malloc 200 (Ptr_other 7) mcu_state_init))
       = snd (fst (MCU_API_malloc 10 Ptr_null mcu_state_init))"
proof -
  note inst = MCU_API_malloc_free_static_buffer
      [where ?sz1.0 = 10 and ?p1.0 = Ptr_null and ?s1.0 = mcu_state_init
         and ?sz2.0 = 200 and ?p2.0 = "Ptr_other 7" and ?s2.0 = mcu_state_init
         and s = mcu_state_init]
  have a: "fst (fst (MCU_API_malloc 10 Ptr_null mcu_state_init)) = SFX_ERR_NONE"
    using inst [where sz = 10 and p = Ptr_null]
    by (simp add: MCU_API_MALLOC_BUFFER_SIZE_def)
  have b: "fst (fst (MCU_API_malloc 200 (Ptr_other 7) mcu_state_init)) = SFX_ERR_NONE"
    using inst [where sz = 200 and p = "Ptr_other 7"]
    by (simp add: MCU_API_MALLOC_BUFFER_SIZE_def)
  show ?thesis
    using a b inst [where sz = 10 and p = Ptr_null] by simp
qed

subsection \<open>The bounded-sleep wait\<close>

lemma timer_wait_loop_step:
  assumes "0 < r"
  shows "timer_wait_loop P r s =
     (let sub = (if r > P then P else r) in
      case rtc_status_queue s of
        [] \<Rightarrow> timer_wait_loop P (r - sub) (s\<lparr>trace := trace s @ sleep_cycle sub\<rparr>)
      | x # q1 \<Rightarrow>
          if x \<noteq> RTC_SUCCESS then
            Some (MCU_ERR_API_TIMER_END,
                  s\<lparr>rtc_status_queue := tl q1,
                    trace := trace s @ [Ev_RTC_stop_wakeup_timer, Ev_RTC_stop_wakeup_timer]\<rparr>)
          else (case q1 of
                  [] \<Rightarrow> timer_wait_loop P (r - sub)
                          (s\<lparr>rtc_status_queue := [], trace := trace s @ sleep_cycle sub\<rparr>)
                | y # q2 \<Rightarrow>
                    if y \<noteq> RTC_SUCCESS then
                      Some (MCU_ERR_API_TIMER_END,
                            s\<lparr>rtc_status_queue := tl q2,
                              trace := trace s @ [Ev_RTC_stop_wakeup_timer,
                                   Ev_RTC_start_wakeup_timer sub, Ev_RTC_stop_wakeup_timer]\<rparr>)
                    else timer_wait_loop P (r - sub)
                           (s\<lparr>rtc_status_queue := q2, trace := trace s @ sleep_cycle sub\<rparr>)))"
  using assms
  apply (subst timer_wait_loop.simps)
  apply (simp add: Let_def RTC_stop_wakeup_timer_def RTC_start_wakeup_timer_def
      next_rtc_status_def log_event_def timer_wait_errors_def PWR_enter_stop_mode_def
      IWDG_reload_def RTC_clear_wakeup_timer_flag_def EXTI_clear_all_flags_def sleep_cycle_def
      split: list.splits)
  done

lemma sub_delay_unat:
  fixes r P :: sfx_u32
  assumes "0 < r" "0 < P"
  shows "unat (if r > P then P else r) = min (unat r) (unat P)"
    and "unat (r - (if r > P then P else r)) = unat r - min (unat r) (unat P)"
    and "0 < unat r" and "0 < unat P"
  using assms by (auto simp: word_less_nat_alt unat_sub word_le_nat_alt min_def)


lemma timer_wait_loop_zero: "timer_wait_loop P 0 s = Some (SFX_ERR_NONE, s)"
  by (subst timer_wait_loop.simps) simp

lemma sub_intervals_zero: "sub_intervals p 0 = []"
  by (subst sub_intervals.simps) simp

lemma sub_intervals_stop: "remaining = 0 \<or> period = 0 \<Longrightarrow> sub_intervals period remaining = []"
  by (subst sub_intervals.simps) simp

lemma sub_intervals_pos:
  "0 < r \<Longrightarrow> 0 < p \<Longrightarrow> sub_intervals p r = min r p # sub_intervals p (r - min r p)"
  by (subst sub_intervals.simps) simp

lemma timer_wait_loop_char:
  assumes P: "0 < P"
  shows "\<exists>st s'. timer_wait_loop P r s = Some (st, s')
          \<and> mcu_api_ctx s' = mcu_api_ctx s \<and> nvm_mem s' = nvm_mem s
          \<and> nvm_status_queue s' = nvm_status_queue s
          \<and> (if rtc_all_success (2 * length (sub_intervals (unat P) (unat r))) (rtc_status_queue s)
              then st = SFX_ERR_NONE
                   \<and> trace s' = trace s @ sleep_cycles (sub_intervals (unat P) (unat r))
                   \<and> rtc_status_queue s'
                       = drop (2 * length (sub_intervals (unat P) (unat r))) (rtc_status_queue s)
              else st = MCU_ERR_API_TIMER_END
                   \<and> (\<exists>tr. trace s' = trace s @ tr @ [Ev_RTC_stop_wakeup_timer]))"
proof (induction "unat r" arbitrary: r s rule: less_induct)
  case less
  show ?case
  proof (cases "r = 0")
    case True
    then show ?thesis
      by (simp add: timer_wait_loop_zero rtc_all_success_def sleep_cycles_def sub_intervals_zero)
  next
    case False
    then have r: "0 < r" by (simp add: word_greater_zero_iff)
    define sub where "sub = (if r > P then P else r)"
    define ds where "ds = sub_intervals (unat P) (unat (r - sub))"
    have u1: "unat sub = min (unat r) (unat P)"
      and u2: "unat (r - sub) = unat r - min (unat r) (unat P)"
      and u3: "0 < unat r" and u4: "0 < unat P"
      using sub_delay_unat [OF r P] by (simp_all add: sub_def)
    have lt: "unat (r - sub) < unat r" using u2 u3 u4 by simp
    have ds: "sub_intervals (unat P) (unat r) = unat sub # ds"
      using sub_intervals_pos [OF u3 u4] by (simp add: ds_def u1 u2)
    have cyc: "sleep_cycles (unat sub # ds) = sleep_cycle sub @ sleep_cycles ds"
      by (simp add: sleep_cycles_def)
    note IH = less [OF lt, folded ds_def]
    note step = timer_wait_loop_step [OF r, of P s, folded sub_def, unfolded Let_def]
    have fail_take: "\<not> rtc_all_success (2 * length (unat sub # ds)) q"
      if "q = x # q1 \<and> x \<noteq> RTC_SUCCESS \<or> q = x # y # q2 \<and> y \<noteq> RTC_SUCCESS" for q x y q1 q2
      using that by (auto simp: rtc_all_success_def)
    have ok_take: "rtc_all_success (2 * length (unat sub # ds)) q = rtc_all_success (2 * length ds) q'"
      and ok_drop: "drop (2 * length (unat sub # ds)) q = drop (2 * length ds) q'"
      if "q = [] \<and> q' = [] \<or> q = [RTC_SUCCESS] \<and> q' = [] \<or> q = RTC_SUCCESS # RTC_SUCCESS # q'"
      for q q'
      using that by (auto simp: rtc_all_success_def)
    have continue: ?thesis
      if eq: "timer_wait_loop P r s = timer_wait_loop P (r - sub) s1"
        and s1: "trace s1 = trace s @ sleep_cycle sub" "mcu_api_ctx s1 = mcu_api_ctx s"
          "nvm_mem s1 = nvm_mem s" "nvm_status_queue s1 = nvm_status_queue s"
        and q: "rtc_status_queue s = [] \<and> rtc_status_queue s1 = []
                \<or> rtc_status_queue s = [RTC_SUCCESS] \<and> rtc_status_queue s1 = []
                \<or> rtc_status_queue s = RTC_SUCCESS # RTC_SUCCESS # rtc_status_queue s1"
      for s1
    proof -
      from IH [of s1] obtain st s' where
        res: "timer_wait_loop P (r - sub) s1 = Some (st, s')"
        and fr: "mcu_api_ctx s' = mcu_api_ctx s1" "nvm_mem s' = nvm_mem s1"
          "nvm_status_queue s' = nvm_status_queue s1"
        and c: "if rtc_all_success (2 * length ds) (rtc_status_queue s1)
              then st = SFX_ERR_NONE \<and> trace s' = trace s1 @ sleep_cycles ds
                   \<and> rtc_status_queue s' = drop (2 * length ds) (rtc_status_queue s1)
              else st = MCU_ERR_API_TIMER_END
                   \<and> (\<exists>tr. trace s' = trace s1 @ tr @ [Ev_RTC_stop_wakeup_timer])"
        by blast
      have "if rtc_all_success (2 * length (unat sub # ds)) (rtc_status_queue s)
              then st = SFX_ERR_NONE \<and> trace s' = trace s @ sleep_cycles (unat sub # ds)
                   \<and> rtc_status_queue s' = drop (2 * length (unat sub # ds)) (rtc_status_queue s)
              else st = MCU_ERR_API_TIMER_END
                   \<and> (\<exists>tr. trace s' = trace s @ tr @ [Ev_RTC_stop_wakeup_timer])"
      proof (cases "rtc_all_success (2 * length ds) (rtc_status_queue s1)")
        case True
        with c ok_take [OF q] ok_drop [OF q] show ?thesis
          by (simp add: cyc s1)
      next
        case False
        with c obtain tr where "trace s' = trace s1 @ tr @ [Ev_RTC_stop_wakeup_timer]"
          and "st = MCU_ERR_API_TIMER_END" by auto
        then have "trace s' = trace s @ (sleep_cycle sub @ tr) @ [Ev_RTC_stop_wakeup_timer]"
          by (simp add: s1)
        with False ok_take [OF q] \<open>st = MCU_ERR_API_TIMER_END\<close> show ?thesis
          by (simp only: if_False) blast
      qed
      with eq res fr s1 show ?thesis
        by (simp only: ds) blast
    qed
    have stop: ?thesis
      if eq: "timer_wait_loop P r s = Some (MCU_ERR_API_TIMER_END, s1)"
        and s1: "trace s1 = trace s @ tr @ [Ev_RTC_stop_wakeup_timer]" "mcu_api_ctx s1 = mcu_api_ctx s"
          "nvm_mem s1 = nvm_mem s" "nvm_status_queue s1 = nvm_status_queue s"
        and q: "\<not> rtc_all_success (2 * length (unat sub # ds)) (rtc_status_queue s)"
      for s1 tr
      using that by (simp only: ds if_False) blast
    show ?thesis
    proof (cases "rtc_status_queue s")
      case Nil
      show ?thesis
        by (rule continue [of "s\<lparr>trace := trace s @ sleep_cycle sub\<rparr>"])
           (simp_all add: step Nil)
    next
      case (Cons x q1)
      show ?thesis
      proof (cases "x = RTC_SUCCESS")
        case False
        have nq: "\<not> rtc_all_success (2 * length (unat sub # ds)) (rtc_status_queue s)"
          by (rule fail_take [of _ x q1 x q1]) (simp add: Cons False)
        show ?thesis
          by (rule stop [of "s\<lparr>rtc_status_queue := tl q1,
                    trace := trace s @ [Ev_RTC_stop_wakeup_timer, Ev_RTC_stop_wakeup_timer]\<rparr>"
                "[Ev_RTC_stop_wakeup_timer]", OF _ _ _ _ _ nq])
             (simp_all add: step Cons False)
      next
        case x: True
        show ?thesis
        proof (cases q1)
          case Nil
          show ?thesis
            by (rule continue [of "s\<lparr>rtc_status_queue := [], trace := trace s @ sleep_cycle sub\<rparr>"])
               (simp_all add: step Cons x Nil)
        next
          case q1: (Cons y q2)
          show ?thesis
          proof (cases "y = RTC_SUCCESS")
            case False
            have nq: "\<not> rtc_all_success (2 * length (unat sub # ds)) (rtc_status_queue s)"
              by (rule fail_take [of _ x q1 y q2]) (simp add: Cons q1 False)
            show ?thesis
              by (rule stop [of "s\<lparr>rtc_status_queue := tl q2,
                              trace := trace s @ [Ev_RTC_stop_wakeup_timer,
                                   Ev_RTC_start_wakeup_timer sub, Ev_RTC_stop_wakeup_timer]\<rparr>"
                    "[Ev_RTC_stop_wakeup_timer, Ev_RTC_start_wakeup_timer sub]", OF _ _ _ _ _ nq])
                 (simp_all add: step Cons x q1 False)
          next
            case True
            show ?thesis
              by (rule continue [of "s\<lparr>rtc_status_queue := q2, trace := trace s @ sleep_cycle sub\<rparr>"])
                 (simp_all add: step Cons x q1 True)
          qed
        qed
      qed
    qed
  qed
qed


lemma timer_armed_after_append:
  "timer_armed_after a (xs @ ys) = timer_armed_after (timer_armed_after a xs) ys"
  by (induction a xs rule: timer_armed_after.induct) simp_all

lemma timer_armed_after_sleep_cycles:
  "timer_armed_after a (sleep_cycles ds) = (if ds = [] then a else True)"
  by (induction ds arbitrary: a) (simp_all add: sleep_cycles_def sleep_cycle_def)

lemma timer_starts_append: "timer_starts (xs @ ys) = timer_starts xs @ timer_starts ys"
  by (induction xs rule: timer_starts.induct) simp_all

lemma timer_starts_sleep_cycles: "timer_starts (sleep_cycles ds) = map of_nat ds"
  by (induction ds) (simp_all add: sleep_cycles_def sleep_cycle_def timer_starts_append)

lemma count_reload_sleep_cycles: "count_list (sleep_cycles ds) Ev_IWDG_reload = length ds"
  by (induction ds) (simp_all add: sleep_cycles_def sleep_cycle_def)

lemma sub_intervals_bounds:
  "d \<in> set (sub_intervals p r) \<Longrightarrow> 0 < d \<and> d \<le> p \<and> d \<le> r"
proof (induction p r rule: sub_intervals.induct)
  case (1 period remaining)
  show ?case
  proof (cases "remaining = 0 \<or> period = 0")
    case True
    with "1.prems" show ?thesis by (simp add: sub_intervals_stop)
  next
    case False
    with "1.prems" have "d = min remaining period
        \<or> d \<in> set (sub_intervals period (remaining - min remaining period))"
      by (subst (asm) sub_intervals.simps) simp
    then show ?thesis
    proof
      assume "d = min remaining period"
      with False show ?thesis by simp
    next
      assume "d \<in> set (sub_intervals period (remaining - min remaining period))"
      with "1.IH" [OF False] show ?thesis by auto
    qed
  qed
qed

lemma sub_intervals_sum: "0 < p \<Longrightarrow> sum_list (sub_intervals p r) = r"
proof (induction p r rule: sub_intervals.induct)
  case (1 period remaining)
  show ?case
  proof (cases "remaining = 0")
    case True
    then show ?thesis by (simp add: sub_intervals_zero)
  next
    case False
    with "1.prems" have "\<not> (remaining = 0 \<or> period = 0)" by simp
    from "1.IH" [OF this "1.prems"] False "1.prems" show ?thesis
      by (subst sub_intervals.simps) simp
  qed
qed

lemma sub_intervals_length: "0 < p \<Longrightarrow> length (sub_intervals p r) = (r + p - 1) div p"
proof (induction p r rule: sub_intervals.induct)
  case (1 period remaining)
  show ?case
  proof (cases "remaining = 0")
    case True
    with "1.prems" show ?thesis by (simp add: sub_intervals_zero)
  next
    case False
    with "1.prems" have c: "\<not> (remaining = 0 \<or> period = 0)" by simp
    have len: "length (sub_intervals period remaining)
        = Suc ((remaining - min remaining period + period - 1) div period)"
      using "1.IH" [OF c "1.prems"] c by (subst sub_intervals.simps) simp
    show ?thesis
    proof (cases "remaining \<le> period")
      case True
      with False "1.prems" have "(remaining + period - 1) div period = 1"
        by (simp add: div_eq_dividend_iff div_nat_eqI)
      with len True "1.prems" show ?thesis by (simp add: min_def)
    next
      case False
      then have "remaining + period - 1 = (remaining - period + period - 1) + period"
        using "1.prems" by simp
      then have "(remaining + period - 1) div period
          = Suc ((remaining - period + period - 1) div period)"
        using "1.prems" by (metis div_add_self2 less_numeral_extra(3) Suc_eq_plus1)
      with len False show ?thesis by (simp add: min_def)
    qed
  qed
qed

lemma sub_intervals_nth:
  "i < length (sub_intervals p r)
   \<Longrightarrow> sub_intervals p r ! i = min (r - sum_list (take i (sub_intervals p r))) p"
proof (induction p r arbitrary: i rule: sub_intervals.induct)
  case (1 period remaining)
  show ?case
  proof (cases "remaining = 0 \<or> period = 0")
    case True
    with "1.prems" show ?thesis by (simp add: sub_intervals_stop)
  next
    case False
    then have eq: "sub_intervals period remaining
        = min remaining period # sub_intervals period (remaining - min remaining period)"
      by (subst sub_intervals.simps) simp
    show ?thesis
    proof (cases i)
      case 0
      then show ?thesis by (simp add: eq)
    next
      case (Suc j)
      with "1.prems" eq
      have "j < length (sub_intervals period (remaining - min remaining period))" by simp
      from "1.IH" [OF False this] Suc show ?thesis
        by (simp add: eq)
    qed
  qed
qed


lemma events_since_append: "trace s' = trace s @ new \<Longrightarrow> events_since s s' = new"
  by (simp add: events_since_def)

lemma unat_of_nat_sub_intervals:
  fixes P :: sfx_u32
  shows "map unat (map of_nat (sub_intervals (unat P) r) :: sfx_u32 list) = sub_intervals (unat P) r"
proof -
  have "unat (of_nat d :: sfx_u32) = d" if "d \<in> set (sub_intervals (unat P) r)" for d
    using sub_intervals_bounds [OF that] le_unat_uoi [of d P] by simp
  then show ?thesis by (simp add: map_idI)
qed

lemma MCU_API_timer_wait_for_end_char:
  assumes P: "0 < P"
  shows "\<exists>st s'. MCU_API_timer_wait_for_end P s = Some (st, s')
          \<and> mcu_api_ctx s' = mcu_api_ctx s \<and> nvm_mem s' = nvm_mem s
          \<and> nvm_status_queue s' = nvm_status_queue s
          \<and> (if rtc_all_success
                   (2 * length (sub_intervals (unat P) (unat (timer_duration_seconds (mcu_api_ctx s)))))
                   (rtc_status_queue s)
              then st = SFX_ERR_NONE
                   \<and> trace s' = trace s @ Ev_IWDG_reload
                        # sleep_cycles (sub_intervals (unat P) (unat (timer_duration_seconds (mcu_api_ctx s))))
                   \<and> rtc_status_queue s'
                       = drop (2 * length (sub_intervals (unat P) (unat (timer_duration_seconds (mcu_api_ctx s)))))
                           (rtc_status_queue s)
              else st = MCU_ERR_API_TIMER_END
                   \<and> (\<exists>tr. trace s' = trace s @ tr @ [Ev_RTC_stop_wakeup_timer]))"
proof -
  define ds where "ds = sub_intervals (unat P) (unat (timer_duration_seconds (mcu_api_ctx s)))"
  have r: "trace (IWDG_reload s) = trace s @ [Ev_IWDG_reload]"
    "rtc_status_queue (IWDG_reload s) = rtc_status_queue s"
    "mcu_api_ctx (IWDG_reload s) = mcu_api_ctx s" "nvm_mem (IWDG_reload s) = nvm_mem s"
    "nvm_status_queue (IWDG_reload s) = nvm_status_queue s"
    by (simp_all add: IWDG_reload_def log_event_def)
  from timer_wait_loop_char [OF P, of "timer_duration_seconds (mcu_api_ctx s)" "IWDG_reload s",
      folded ds_def, unfolded r]
  obtain st s' where
    res: "timer_wait_loop P (timer_duration_seconds (mcu_api_ctx s)) (IWDG_reload s) = Some (st, s')"
    and fr: "mcu_api_ctx s' = mcu_api_ctx s" "nvm_mem s' = nvm_mem s"
      "nvm_status_queue s' = nvm_status_queue s"
    and c: "if rtc_all_success (2 * length ds) (rtc_status_queue s)
            then st = SFX_ERR_NONE \<and> trace s' = (trace s @ [Ev_IWDG_reload]) @ sleep_cycles ds
                 \<and> rtc_status_queue s' = drop (2 * length ds) (rtc_status_queue s)
            else st = MCU_ERR_API_TIMER_END
                 \<and> (\<exists>tr. trace s' = (trace s @ [Ev_IWDG_reload]) @ tr @ [Ev_RTC_stop_wakeup_timer])"
    by blast
  have "if rtc_all_success (2 * length ds) (rtc_status_queue s)
        then st = SFX_ERR_NONE \<and> trace s' = trace s @ Ev_IWDG_reload # sleep_cycles ds
             \<and> rtc_status_queue s' = drop (2 * length ds) (rtc_status_queue s)
        else st = MCU_ERR_API_TIMER_END
             \<and> (\<exists>tr. trace s' = trace s @ tr @ [Ev_RTC_stop_wakeup_timer])"
  proof (cases "rtc_all_success (2 * length ds) (rtc_status_queue s)")
    case True
    with c show ?thesis by simp
  next
    case False
    with c obtain tr where "st = MCU_ERR_API_TIMER_END"
      and "trace s' = trace s @ (Ev_IWDG_reload # tr) @ [Ev_RTC_stop_wakeup_timer]"
      by auto
    with False show ?thesis by (simp only: if_False) blast
  qed
  with res fr show ?thesis
    unfolding MCU_API_timer_wait_for_end_def ds_def by blast
qed


text \<open>
  C3. Let \<open>D\<close> be the duration stored by \<open>MCU_API_timer_start\<close> and \<open>P\<close> the
  watchdog refresh period, \<open>P > 0\<close>. When \<open>MCU_API_timer_wait_for_end\<close> returns success,
  the durations it started the wake-up timer with are, in order, the decomposition of
  \<open>D\<close>: the i-th is the minimum of \<open>P\<close> and of what remains of \<open>D\<close> after the earlier
  ones; each is positive and at most \<open>P\<close>; they sum to \<open>D\<close>; and the watchdog was
  reloaded \<open>1 + ceil(D / P)\<close> times, hence at least \<open>ceil(D / P)\<close> times.
\<close>

theorem MCU_API_timer_wait_for_end_decomposes_duration:
  assumes "0 < P"
    and "MCU_API_timer_wait_for_end P (snd (MCU_API_timer_start D s)) = Some (SFX_ERR_NONE, s')"
  shows "take (length (trace s)) (trace s') = trace s
    \<and> map unat (timer_starts (events_since s s')) = sub_intervals (unat P) (unat D)
    \<and> (\<forall>i < length (timer_starts (events_since s s')).
          unat (timer_starts (events_since s s') ! i)
          = min (unat D - sum_list (take i (map unat (timer_starts (events_since s s'))))) (unat P))
    \<and> list_all (\<lambda>d. 0 < d \<and> d \<le> P) (timer_starts (events_since s s'))
    \<and> sum_list (map unat (timer_starts (events_since s s'))) = unat D
    \<and> count_list (events_since s s') Ev_IWDG_reload = Suc ((unat D + unat P - 1) div unat P)
    \<and> (unat D + unat P - 1) div unat P \<le> count_list (events_since s s') Ev_IWDG_reload"
proof -
  define s0 where "s0 = snd (MCU_API_timer_start D s)"
  define ds where "ds = sub_intervals (unat P) (unat D)"
  have s0: "timer_duration_seconds (mcu_api_ctx s0) = D" "trace s0 = trace s"
    by (simp_all add: s0_def MCU_API_timer_start_def)
  have p: "0 < unat P" using assms(1) by (simp add: word_less_nat_alt)
  from MCU_API_timer_wait_for_end_char [OF assms(1), of s0] assms(2)
  have tr: "trace s' = trace s @ Ev_IWDG_reload # sleep_cycles ds"
    by (auto simp: s0 ds_def s0_def [symmetric] split: if_splits)
  then have ev: "events_since s s' = Ev_IWDG_reload # sleep_cycles ds"
    by (rule events_since_append)
  have st: "timer_starts (events_since s s') = map of_nat ds"
    by (simp add: ev timer_starts_sleep_cycles)
  have un: "map unat (timer_starts (events_since s s')) = ds"
    unfolding st ds_def by (rule unat_of_nat_sub_intervals)
  have len: "length (timer_starts (events_since s s')) = length ds"
    by (simp add: st)
  have nth: "unat (timer_starts (events_since s s') ! i)
      = min (unat D - sum_list (take i (map unat (timer_starts (events_since s s'))))) (unat P)"
    if "i < length (timer_starts (events_since s s'))" for i
  proof -
    from that have i: "i < length ds" by (simp add: len)
    have "unat (timer_starts (events_since s s') ! i) = map unat (timer_starts (events_since s s')) ! i"
      using that by simp
    also have "\<dots> = ds ! i" by (simp only: un)
    also have "\<dots> = min (unat D - sum_list (take i ds)) (unat P)"
      using sub_intervals_nth [of i "unat P" "unat D"] i by (simp add: ds_def)
    finally show ?thesis by (simp only: un)
  qed
  have bnd: "list_all (\<lambda>d. 0 < d \<and> d \<le> P) (timer_starts (events_since s s'))"
  proof -
    have "0 < (of_nat d :: sfx_u32) \<and> (of_nat d :: sfx_u32) \<le> P" if "d \<in> set ds" for d
    proof -
      from sub_intervals_bounds [OF that [unfolded ds_def]]
      have d: "0 < d" "d \<le> unat P" by simp_all
      then have "unat (of_nat d :: sfx_u32) = d" using le_unat_uoi [of d P] by simp
      with d show ?thesis by (simp add: word_less_nat_alt word_le_nat_alt)
    qed
    then show ?thesis by (simp add: st list_all_iff)
  qed
  have sum: "sum_list (map unat (timer_starts (events_since s s'))) = unat D"
    by (simp only: un) (simp add: ds_def sub_intervals_sum [OF p])
  have cnt: "count_list (events_since s s') Ev_IWDG_reload = Suc ((unat D + unat P - 1) div unat P)"
    by (simp add: ev count_reload_sleep_cycles ds_def sub_intervals_length [OF p])
  from tr un nth bnd sum cnt show ?thesis
    by (simp add: ds_def)
qed


lemmas timer_eval_defs =
  MCU_API_timer_wait_for_end_def MCU_API_timer_start_def mcu_state_init_def
  timer_wait_loop.simps IWDG_reload_def log_event_def RTC_stop_wakeup_timer_def
  RTC_start_wakeup_timer_def next_rtc_status_def PWR_enter_stop_mode_def
  RTC_clear_wakeup_timer_flag_def EXTI_clear_all_flags_def timer_wait_errors_def Let_def

theorem MCU_API_timer_wait_for_end_decomposes_duration_witness:
  "(0 :: sfx_u32) < 10
   \<and> fst (the (MCU_API_timer_wait_for_end 10 (snd (MCU_API_timer_start 25 mcu_state_init))))
       = SFX_ERR_NONE
   \<and> timer_starts (events_since mcu_state_init
        (snd (the (MCU_API_timer_wait_for_end 10 (snd (MCU_API_timer_start 25 mcu_state_init))))))
       = [10, 10, 5]
   \<and> sub_intervals (unat (10 :: sfx_u32)) (unat (25 :: sfx_u32)) = [10, 10, 5]
   \<and> count_list (events_since mcu_state_init
        (snd (the (MCU_API_timer_wait_for_end 10 (snd (MCU_API_timer_start 25 mcu_state_init))))))
        Ev_IWDG_reload = 4"
proof -
  have ev: "MCU_API_timer_wait_for_end 10 (snd (MCU_API_timer_start 25 mcu_state_init))
      = Some (SFX_ERR_NONE,
          (snd (MCU_API_timer_start 25 mcu_state_init))
            \<lparr>trace := Ev_IWDG_reload # sleep_cycle 10 @ sleep_cycle 10 @ sleep_cycle 5\<rparr>)"
    by (simp add: timer_eval_defs sleep_cycle_def)
  have p: "(0 :: sfx_u32) < 10" by simp
  have si: "sub_intervals 10 25 = [10, 10, 5]"
    by (simp add: sub_intervals.simps)
  have tr0: "trace mcu_state_init = []"
    by (simp add: mcu_state_init_def)
  from MCU_API_timer_wait_for_end_decomposes_duration [OF p ev] si
  show ?thesis
    by (simp add: ev events_since_def tr0 sleep_cycle_def)
qed


text \<open>
  C2, as stated, fails on the success path: with a duration of 1 second (period 10) and
  working RTC calls the function returns success, and its last wake-up timer call is
  the start of the 1-second timer; no stop follows it.
\<close>

theorem MCU_API_timer_wait_for_end_success_timer_armed_counterexample:
  "MCU_API_timer_wait_for_end 10 (snd (MCU_API_timer_start 1 mcu_state_init))
     = Some (SFX_ERR_NONE,
         (snd (MCU_API_timer_start 1 mcu_state_init))
           \<lparr>trace := [Ev_IWDG_reload, Ev_RTC_stop_wakeup_timer, Ev_RTC_start_wakeup_timer 1,
                      Ev_PWR_enter_stop_mode, Ev_IWDG_reload, Ev_RTC_clear_wakeup_timer_flag,
                      Ev_EXTI_clear_all_flags]\<rparr>)
   \<and> timer_armed_after False
        [Ev_IWDG_reload, Ev_RTC_stop_wakeup_timer, Ev_RTC_start_wakeup_timer 1,
         Ev_PWR_enter_stop_mode, Ev_IWDG_reload, Ev_RTC_clear_wakeup_timer_flag,
         Ev_EXTI_clear_all_flags]"
  by (simp add: timer_eval_defs)


text \<open>
  C2, amended. With a period \<open>P > 0\<close> the call returns, with success or
  \<open>MCU_ERR_API_TIMER_END\<close>. It returns \<open>MCU_ERR_API_TIMER_END\<close> exactly when one of the
  statuses the RTC driver reports to the stop and start calls of the loop (two per
  sub-interval) is a failure; then the last call before the return is
  \<open>RTC_stop_wakeup_timer\<close>, so the timer is not left armed. On a successful return of a
  non-zero duration the last timer call is a start: the timer is stopped by the separate
  \<open>MCU_API_timer_stop\<close>, which issues \<open>RTC_stop_wakeup_timer\<close>.
\<close>

theorem MCU_API_timer_wait_for_end_failure_stops_timer:
  assumes "0 < P"
  shows "\<exists>st s'. MCU_API_timer_wait_for_end P s = Some (st, s')
     \<and> (st = SFX_ERR_NONE \<or> st = MCU_ERR_API_TIMER_END)
     \<and> (st = MCU_ERR_API_TIMER_END \<longleftrightarrow>
          \<not> rtc_all_success
              (2 * length (sub_intervals (unat P) (unat (timer_duration_seconds (mcu_api_ctx s)))))
              (rtc_status_queue s))
     \<and> (st = MCU_ERR_API_TIMER_END \<longrightarrow>
          last (events_since s s') = Ev_RTC_stop_wakeup_timer
          \<and> \<not> timer_armed_after a (events_since s s'))
     \<and> (st = SFX_ERR_NONE \<longrightarrow>
          timer_armed_after False (events_since s s') = (0 < timer_duration_seconds (mcu_api_ctx s)))
     \<and> events_since s (snd (MCU_API_timer_stop s)) = [Ev_RTC_stop_wakeup_timer]"
proof -
  define ds where "ds = sub_intervals (unat P) (unat (timer_duration_seconds (mcu_api_ctx s)))"
  have p: "0 < unat P" using assms by (simp add: word_less_nat_alt)
  from MCU_API_timer_wait_for_end_char [OF assms, of s, folded ds_def]
  obtain st s' where
    res: "MCU_API_timer_wait_for_end P s = Some (st, s')"
    and c: "if rtc_all_success (2 * length ds) (rtc_status_queue s)
            then st = SFX_ERR_NONE \<and> trace s' = trace s @ Ev_IWDG_reload # sleep_cycles ds
            else st = MCU_ERR_API_TIMER_END
                 \<and> (\<exists>tr. trace s' = trace s @ tr @ [Ev_RTC_stop_wakeup_timer])"
    by (auto split: if_splits)
  have ds_empty: "ds = [] \<longleftrightarrow> \<not> 0 < timer_duration_seconds (mcu_api_ctx s)"
    using sub_intervals_length [OF p, of "unat (timer_duration_seconds (mcu_api_ctx s))"] p
    by (auto simp: ds_def [symmetric] word_less_nat_alt sub_intervals_zero div_eq_0_iff
          simp flip: length_0_conv)
  have stop: "events_since s (snd (MCU_API_timer_stop s)) = [Ev_RTC_stop_wakeup_timer]"
    by (simp add: MCU_API_timer_stop_def RTC_stop_wakeup_timer_def next_rtc_status_def
          log_event_def events_since_def Let_def split: list.splits prod.splits)
  have main: "(st = SFX_ERR_NONE \<or> st = MCU_ERR_API_TIMER_END)
     \<and> (st = MCU_ERR_API_TIMER_END \<longleftrightarrow> \<not> rtc_all_success (2 * length ds) (rtc_status_queue s))
     \<and> (st = MCU_ERR_API_TIMER_END \<longrightarrow>
          last (events_since s s') = Ev_RTC_stop_wakeup_timer
          \<and> \<not> timer_armed_after a (events_since s s'))
     \<and> (st = SFX_ERR_NONE \<longrightarrow>
          timer_armed_after False (events_since s s') = (0 < timer_duration_seconds (mcu_api_ctx s)))"
  proof (cases "rtc_all_success (2 * length ds) (rtc_status_queue s)")
    case True
    with c have st: "st = SFX_ERR_NONE"
      and ev: "events_since s s' = Ev_IWDG_reload # sleep_cycles ds"
      by (simp_all add: events_since_def)
    show ?thesis
      using True ds_empty by (simp add: st ev timer_armed_after_sleep_cycles)
  next
    case False
    with c obtain tr where st: "st = MCU_ERR_API_TIMER_END"
      and "trace s' = trace s @ tr @ [Ev_RTC_stop_wakeup_timer]" by auto
    then have ev: "events_since s s' = tr @ [Ev_RTC_stop_wakeup_timer]"
      by (simp add: events_since_def)
    show ?thesis
      using False by (simp add: st ev timer_armed_after_append)
  qed
  with res stop show ?thesis
    unfolding ds_def by blast
qed

theorem MCU_API_timer_wait_for_end_failure_stops_timer_witness:
  "(0 :: sfx_u32) < 10
   \<and> fst (the (MCU_API_timer_wait_for_end 10
        (snd (MCU_API_timer_start 25
           (mcu_state_init\<lparr>rtc_status_queue := [RTC_SUCCESS, RTC_SUCCESS, RTC_SUCCESS, RTC_ERROR 3]\<rparr>)))))
       = MCU_ERR_API_TIMER_END
   \<and> last (events_since
        (snd (MCU_API_timer_start 25
           (mcu_state_init\<lparr>rtc_status_queue := [RTC_SUCCESS, RTC_SUCCESS, RTC_SUCCESS, RTC_ERROR 3]\<rparr>)))
        (snd (the (MCU_API_timer_wait_for_end 10
           (snd (MCU_API_timer_start 25
              (mcu_state_init\<lparr>rtc_status_queue := [RTC_SUCCESS, RTC_SUCCESS, RTC_SUCCESS, RTC_ERROR 3]\<rparr>)))))))
       = Ev_RTC_stop_wakeup_timer
   \<and> fst (the (MCU_API_timer_wait_for_end 10 (snd (MCU_API_timer_start 25 mcu_state_init))))
       = SFX_ERR_NONE
   \<and> timer_armed_after False
        (events_since (snd (MCU_API_timer_start 25 mcu_state_init))
           (snd (the (MCU_API_timer_wait_for_end 10 (snd (MCU_API_timer_start 25 mcu_state_init))))))"
proof -
  have p: "(0 :: sfx_u32) < 10" by simp
  have si: "sub_intervals 10 25 = [10, 10, 5]"
    by (simp add: sub_intervals.simps)
  show ?thesis
    using MCU_API_timer_wait_for_end_failure_stops_timer [OF p,
        of "snd (MCU_API_timer_start 25
           (mcu_state_init\<lparr>rtc_status_queue := [RTC_SUCCESS, RTC_SUCCESS, RTC_SUCCESS, RTC_ERROR 3]\<rparr>))" False]
      MCU_API_timer_wait_for_end_failure_stops_timer [OF p,
        of "snd (MCU_API_timer_start 25 mcu_state_init)" False]
    by (simp add: timer_eval_defs events_since_def)
qed

subsection \<open>The persistent record\<close>

lemmas nvm_layout_defs =
  NVM_ADDRESS_SIGFOX_PN_def NVM_ADDRESS_SIGFOX_MESSAGE_COUNTER_def NVM_ADDRESS_SIGFOX_FH_def
  NVM_ADDRESS_SIGFOX_RL_def SFX_NVMEM_PN_def SFX_NVMEM_MSG_COUNTER_def SFX_NVMEM_FH_def
  SFX_NVMEM_RL_def SFX_NVMEM_BLOCK_SIZE_def

lemma nvm_read_into_success:
  assumes "nvm_read_into a i rd s = ((NVM_SUCCESS, rd'), s')"
  shows "rd' = rd[i := nvm_mem s a] \<and> nvm_mem s' = nvm_mem s \<and> nvm_size s' = nvm_size s
         \<and> a < nvm_size s \<and> mcu_api_ctx s' = mcu_api_ctx s \<and> trace s' = trace s"
  using assms
  by (auto simp: nvm_read_into_def NVM_read_byte_def next_nvm_status_def Let_def
      split: if_splits list.splits prod.splits)

lemma NVM_write_byte_success:
  assumes "NVM_write_byte a v s = (NVM_SUCCESS, s')"
  shows "nvm_mem s' = (nvm_mem s)(a := v) \<and> nvm_size s' = nvm_size s
         \<and> a < nvm_size s \<and> mcu_api_ctx s' = mcu_api_ctx s \<and> trace s' = trace s"
  using assms
  by (auto simp: NVM_write_byte_def next_nvm_status_def Let_def
      split: if_splits list.splits prod.splits)

lemma MCU_API_get_nv_mem_success:
  assumes "MCU_API_get_nv_mem read_data s = ((SFX_ERR_NONE, rd'), s')"
  shows "rd' = read_data[0 := nvm_mem s 20, 1 := nvm_mem s 21, 2 := nvm_mem s 22,
                 3 := nvm_mem s 23, 4 := nvm_mem s 24, 5 := nvm_mem s 25, 6 := nvm_mem s 26]
         \<and> nvm_mem s' = nvm_mem s \<and> mcu_api_ctx s' = mcu_api_ctx s \<and> trace s' = trace s"
  using assms
  unfolding MCU_API_get_nv_mem_def nvm_layout_defs
  apply (simp add: Let_def split: prod.splits if_splits)
  apply (auto dest!: nvm_read_into_success)
  done


lemma MCU_API_set_nv_mem_success:
  assumes "MCU_API_set_nv_mem d s = (SFX_ERR_NONE, s')"
  shows "nvm_mem s' = (nvm_mem s)(20 := d ! 0, 21 := d ! 1, 22 := d ! 2, 23 := d ! 3,
                                   24 := d ! 4, 25 := d ! 5, 26 := d ! 6)
         \<and> mcu_api_ctx s' = mcu_api_ctx s \<and> trace s' = trace s"
  using assms
  unfolding MCU_API_set_nv_mem_def nvm_layout_defs
  apply (simp add: Let_def split: prod.splits if_splits)
  apply (auto dest!: NVM_write_byte_success)
  done

lemma MCU_API_get_nv_mem_status:
  "fst (fst (MCU_API_get_nv_mem read_data s)) = SFX_ERR_NONE
   \<or> fst (fst (MCU_API_get_nv_mem read_data s)) = MCU_ERR_API_GETNVMEM"
  unfolding MCU_API_get_nv_mem_def
  by (simp add: Let_def split: prod.splits)

lemma MCU_API_set_nv_mem_status:
  "fst (MCU_API_set_nv_mem d s) = SFX_ERR_NONE \<or> fst (MCU_API_set_nv_mem d s) = MCU_ERR_API_SETNVMEM"
  unfolding MCU_API_set_nv_mem_def
  by (simp add: Let_def split: prod.splits)

lemma list_update_7_take_drop:
  assumes "7 \<le> length xs"
  shows "take 7 (xs[0 := a0, 1 := a1, 2 := a2, 3 := a3, 4 := a4, 5 := a5, 6 := a6])
           = [a0, a1, a2, a3, a4, a5, a6]"
    and "drop 7 (xs[0 := a0, 1 := a1, 2 := a2, 3 := a3, 4 := a4, 5 := a5, 6 := a6]) = drop 7 xs"
proof -
  let ?ys = "xs[0 := a0, 1 := a1, 2 := a2, 3 := a3, 4 := a4, 5 := a5, 6 := a6]"
  have len: "length (take 7 ?ys) = 7" using assms by simp
  have "take 7 ?ys ! i = [a0, a1, a2, a3, a4, a5, a6] ! i" if "i < 7" for i
  proof -
    from that consider "i = 0" | "i = 1" | "i = 2" | "i = 3" | "i = 4" | "i = 5" | "i = 6"
      by linarith
    moreover have "xs \<noteq> []" using assms by auto
    ultimately show ?thesis using assms by cases simp_all
  qed
  with len show "take 7 ?ys = [a0, a1, a2, a3, a4, a5, a6]"
    by (intro nth_equalityI) simp_all
  show "drop 7 ?ys = drop 7 xs" by simp
qed

text \<open>
  C4, amended. The record is 7 bytes. A successful \<open>MCU_API_get_nv_mem\<close> copies, in
  this order, the two bytes of PN at \<open>NVM_ADDRESS_SIGFOX_PN\<close>, the two bytes of the
  message counter at \<open>NVM_ADDRESS_SIGFOX_MESSAGE_COUNTER\<close>, the two bytes of FH at
  \<open>NVM_ADDRESS_SIGFOX_FH\<close> and the single byte of RL at \<open>NVM_ADDRESS_SIGFOX_RL\<close> into
  bytes 0 to 6 of the buffer, leaves the rest of the buffer and the store as they were;
  a successful \<open>MCU_API_set_nv_mem\<close> writes bytes 0 to 6 of its buffer to the same
  addresses (20 to 26) and changes no other address. Either function returns success or
  its own error code.
\<close>

theorem MCU_API_nv_mem_record_layout:
  "(SFX_NVMEM_BLOCK_SIZE \<le> length read_data
      \<and> MCU_API_get_nv_mem read_data s = ((SFX_ERR_NONE, rd'), s') \<longrightarrow>
        length rd' = length read_data
        \<and> take SFX_NVMEM_BLOCK_SIZE rd'
            = [nvm_mem s (NVM_ADDRESS_SIGFOX_PN + 0), nvm_mem s (NVM_ADDRESS_SIGFOX_PN + 1),
               nvm_mem s (NVM_ADDRESS_SIGFOX_MESSAGE_COUNTER + 0),
               nvm_mem s (NVM_ADDRESS_SIGFOX_MESSAGE_COUNTER + 1),
               nvm_mem s (NVM_ADDRESS_SIGFOX_FH + 0), nvm_mem s (NVM_ADDRESS_SIGFOX_FH + 1),
               nvm_mem s NVM_ADDRESS_SIGFOX_RL]
        \<and> drop SFX_NVMEM_BLOCK_SIZE rd' = drop SFX_NVMEM_BLOCK_SIZE read_data
        \<and> nvm_mem s' = nvm_mem s)
   \<and> (MCU_API_set_nv_mem data_to_write s = (SFX_ERR_NONE, s'') \<longrightarrow>
        map (nvm_mem s'') [NVM_ADDRESS_SIGFOX_PN ..< NVM_ADDRESS_LAST]
          = [data_to_write ! (SFX_NVMEM_PN + 0), data_to_write ! (SFX_NVMEM_PN + 1),
             data_to_write ! (SFX_NVMEM_MSG_COUNTER + 0), data_to_write ! (SFX_NVMEM_MSG_COUNTER + 1),
             data_to_write ! (SFX_NVMEM_FH + 0), data_to_write ! (SFX_NVMEM_FH + 1),
             data_to_write ! SFX_NVMEM_RL]
        \<and> (\<forall>a. a < NVM_ADDRESS_SIGFOX_PN \<or> NVM_ADDRESS_LAST \<le> a \<longrightarrow> nvm_mem s'' a = nvm_mem s a))
   \<and> [NVM_ADDRESS_SIGFOX_PN, NVM_ADDRESS_SIGFOX_MESSAGE_COUNTER, NVM_ADDRESS_SIGFOX_FH,
       NVM_ADDRESS_SIGFOX_RL, NVM_ADDRESS_LAST] = [20, 22, 24, 26, 27]
   \<and> (fst (fst (MCU_API_get_nv_mem read_data s)) = SFX_ERR_NONE
        \<or> fst (fst (MCU_API_get_nv_mem read_data s)) = MCU_ERR_API_GETNVMEM)
   \<and> (fst (MCU_API_set_nv_mem data_to_write s) = SFX_ERR_NONE
        \<or> fst (MCU_API_set_nv_mem data_to_write s) = MCU_ERR_API_SETNVMEM)"
proof -
  have get: "length rd' = length read_data
        \<and> take 7 rd' = [nvm_mem s 20, nvm_mem s 21, nvm_mem s 22, nvm_mem s 23,
                         nvm_mem s 24, nvm_mem s 25, nvm_mem s 26]
        \<and> drop 7 rd' = drop 7 read_data \<and> nvm_mem s' = nvm_mem s"
    if "7 \<le> length read_data" "MCU_API_get_nv_mem read_data s = ((SFX_ERR_NONE, rd'), s')"
    using MCU_API_get_nv_mem_success [OF that(2)] list_update_7_take_drop [OF that(1)]
    by simp
  have upt: "[20..<27] = [20, 21, 22, 23, 24, 25, 26 :: nat]"
    by (simp add: upt_rec)
  have set: "map (nvm_mem s'') [20..<27]
          = [data_to_write ! 0, data_to_write ! 1, data_to_write ! 2, data_to_write ! 3,
             data_to_write ! 4, data_to_write ! 5, data_to_write ! 6]
        \<and> (\<forall>a. a < 20 \<or> 27 \<le> a \<longrightarrow> nvm_mem s'' a = nvm_mem s a)"
    if "MCU_API_set_nv_mem data_to_write s = (SFX_ERR_NONE, s'')"
    using MCU_API_set_nv_mem_success [OF that] by (auto simp: upt)
  show ?thesis
    using get set MCU_API_get_nv_mem_status [of read_data s]
      MCU_API_set_nv_mem_status [of data_to_write s]
    by (simp add: nvm_layout_defs NVM_ADDRESS_LAST_def)
qed

lemmas nvm_eval_defs =
  MCU_API_get_nv_mem_def MCU_API_set_nv_mem_def nvm_read_into_def NVM_read_byte_def
  NVM_write_byte_def next_nvm_status_def nvm_layout_defs NVM_ADDRESS_LAST_def
  mcu_state_init_def nvm_test_state_def Let_def

theorem MCU_API_nv_mem_record_layout_witness:
  "SFX_NVMEM_BLOCK_SIZE \<le> length (replicate 7 (0 :: sfx_u8))
   \<and> MCU_API_get_nv_mem (replicate 7 0) nvm_test_state
       = ((SFX_ERR_NONE, [20, 21, 22, 23, 24, 25, 26]), nvm_test_state)
   \<and> MCU_API_set_nv_mem [1, 2, 3, 4, 5, 6, 7] nvm_test_state
       = (SFX_ERR_NONE,
          nvm_test_state\<lparr>nvm_mem := of_nat(20 := 1, 21 := 2, 22 := 3, 23 := 4, 24 := 5,
                                             25 := 6, 26 := 7)\<rparr>)
   \<and> map (nvm_mem (nvm_test_state\<lparr>nvm_mem := of_nat(20 := 1, 21 := 2, 22 := 3, 23 := 4,
                                                       24 := 5, 25 := 6, 26 := 7)\<rparr>))
        [NVM_ADDRESS_SIGFOX_PN ..< NVM_ADDRESS_LAST] = [1, 2, 3, 4, 5, 6, 7]"
proof -
  have g: "MCU_API_get_nv_mem (replicate 7 0) nvm_test_state
       = ((SFX_ERR_NONE, [20, 21, 22, 23, 24, 25, 26]), nvm_test_state)"
    by (simp add: nvm_eval_defs numeral_eq_Suc)
  have w: "MCU_API_set_nv_mem [1, 2, 3, 4, 5, 6, 7] nvm_test_state
       = (SFX_ERR_NONE,
          nvm_test_state\<lparr>nvm_mem := of_nat(20 := 1, 21 := 2, 22 := 3, 23 := 4, 24 := 5,
                                             25 := 6, 26 := 7)\<rparr>)"
    by (simp add: nvm_eval_defs)
  have l: "SFX_NVMEM_BLOCK_SIZE \<le> length (replicate 7 (0 :: sfx_u8))"
    by (simp add: SFX_NVMEM_BLOCK_SIZE_def)
  from MCU_API_nv_mem_record_layout
         [of "replicate 7 0" nvm_test_state "[20, 21, 22, 23, 24, 25, 26]" nvm_test_state
             "[1, 2, 3, 4, 5, 6, 7]"
             "nvm_test_state\<lparr>nvm_mem := of_nat(20 := 1, 21 := 2, 22 := 3, 23 := 4, 24 := 5,
                                                25 := 6, 26 := 7)\<rparr>"]
    g w l
  show ?thesis
    by (simp add: nvm_layout_defs)
qed

text \<open>
  C4, as stated, fails for RL: only one byte of RL is transferred. With an 8-byte buffer
  and a store whose byte at address 27 (\<open>NVM_ADDRESS_SIGFOX_RL + 1\<close>) is 27, a
  successful read leaves byte 7 of the buffer at 0, and a successful write of
  \<open>[1, ..., 8]\<close> leaves address 27 at 27.
\<close>

theorem MCU_API_nv_mem_RL_second_byte_counterexample:
  "MCU_API_get_nv_mem (replicate 8 0) nvm_test_state
     = ((SFX_ERR_NONE, [20, 21, 22, 23, 24, 25, 26, 0]), nvm_test_state)
   \<and> nvm_mem nvm_test_state (NVM_ADDRESS_SIGFOX_RL + 1) = 27
   \<and> fst (MCU_API_set_nv_mem [1, 2, 3, 4, 5, 6, 7, 8] nvm_test_state) = SFX_ERR_NONE
   \<and> nvm_mem (snd (MCU_API_set_nv_mem [1, 2, 3, 4, 5, 6, 7, 8] nvm_test_state))
        (NVM_ADDRESS_SIGFOX_RL + 1) = 27
   \<and> [1, 2, 3, 4, 5, 6, 7, 8 :: sfx_u8] ! (SFX_NVMEM_RL + 1) = 8"
  by (simp add: nvm_eval_defs numeral_eq_Suc)

subsection \<open>AES-128 encryption with cipher block chaining\<close>

lemma encrypt_blocks_done:
  "\<not> block_idx < nblocks
   \<Longrightarrow> encrypt_blocks cipher nblocks block_idx d K data_out enc s = ((SFX_ERR_NONE, enc), s)"
  by (subst encrypt_blocks.simps) simp

lemma init_vector_copy:
  "length data_out = AES_BLOCK_SIZE
   \<Longrightarrow> map (\<lambda>byte_idx. data_out ! byte_idx) [0..<AES_BLOCK_SIZE] = data_out"
  by (metis map_nth)

lemma encrypt_blocks_step:
  assumes "block_idx < nblocks" "length data_out = AES_BLOCK_SIZE"
  shows "encrypt_blocks cipher nblocks block_idx d K data_out enc s =
     (let c = cipher (data_block d block_idx) data_out K;
          ev = Ev_AES_encrypt (data_block d block_idx) data_out K in
      case aes_status_queue s of
        [] \<Rightarrow> encrypt_blocks cipher nblocks (block_idx + 1) d K c (write_block enc block_idx c)
                (s\<lparr>trace := trace s @ [ev]\<rparr>)
      | st # q \<Rightarrow>
          if st \<noteq> AES_SUCCESS
          then ((MCU_ERR_API_AES, enc), s\<lparr>trace := trace s @ [ev], aes_status_queue := q\<rparr>)
          else encrypt_blocks cipher nblocks (block_idx + 1) d K c (write_block enc block_idx c)
                 (s\<lparr>trace := trace s @ [ev], aes_status_queue := q\<rparr>))"
  using assms
  apply (subst encrypt_blocks.simps)
  apply (simp add: Let_def AES_encrypt_def log_event_def init_vector_copy split: list.splits)
  done


lemma write_block_length [simp]: "length (write_block buf i c) = length buf"
proof -
  have "length (fold (\<lambda>byte_idx b. b[i * AES_BLOCK_SIZE + byte_idx := c ! byte_idx]) js buf)
        = length buf" for js
    by (induction js arbitrary: buf) simp_all
  then show ?thesis by (simp add: write_block_def)
qed

lemma write_blocks_length [simp]: "length (write_blocks buf i cs) = length buf"
  by (induction cs arbitrary: buf i) simp_all

lemma cbc_chain_length [simp]: "length (cbc_chain cipher key iv ps) = length ps"
  by (induction ps arbitrary: iv) simp_all

lemma aes_events_length [simp]: "length (aes_events cipher key iv ps) = length ps"
  by (induction ps arbitrary: iv) simp_all

lemma aes_events_uses_key: "list_all (uses_key key) (aes_events cipher key iv ps)"
  by (induction ps arbitrary: iv) simp_all

lemma encrypt_blocks_char:
  assumes wf: "cipher_wf cipher"
  shows "length data_out = AES_BLOCK_SIZE \<Longrightarrow>
    \<exists>st enc' s' m. encrypt_blocks cipher n k d K data_out enc s = ((st, enc'), s')
      \<and> mcu_api_ctx s' = mcu_api_ctx s \<and> nvm_mem s' = nvm_mem s
      \<and> m \<le> n - k
      \<and> enc' = write_blocks enc k (take m (cbc_chain cipher K data_out (map (data_block d) [k..<n])))
      \<and> (if aes_all_success (n - k) (aes_status_queue s)
          then st = SFX_ERR_NONE \<and> m = n - k
               \<and> trace s' = trace s @ aes_events cipher K data_out (map (data_block d) [k..<n])
          else st = MCU_ERR_API_AES
               \<and> trace s' = trace s
                    @ take (Suc m) (aes_events cipher K data_out (map (data_block d) [k..<n])))"
proof (induction "n - k" arbitrary: k data_out enc s)
  case 0
  then have "\<not> k < n" by simp
  then show ?case
    by (simp add: encrypt_blocks_done aes_all_success_def)
next
  case (Suc j)
  then have kn: "k < n" and j: "j = n - Suc k" by simp_all
  define c where "c = cipher (data_block d k) data_out K"
  define ev where "ev = Ev_AES_encrypt (data_block d k) data_out K"
  define ps where "ps = map (data_block d) [Suc k..<n]"
  have lc: "length c = AES_BLOCK_SIZE" using wf by (simp add: c_def cipher_wf_def)
  have blocks: "map (data_block d) [k..<n] = data_block d k # ps"
    using kn by (simp add: ps_def upt_conv_Cons)
  have nk: "n - k = Suc (n - Suc k)" using kn by simp
  note step = encrypt_blocks_step [OF kn Suc.prems, of cipher d K enc s,
      unfolded Let_def, folded c_def ev_def]
  note IH = Suc.hyps(1) [OF j lc, of "write_block enc k c", folded ps_def]
  have continue: ?case
    if eq: "encrypt_blocks cipher n k d K data_out enc s
              = encrypt_blocks cipher n (Suc k) d K c (write_block enc k c) s1"
      and s1: "trace s1 = trace s @ [ev]" "mcu_api_ctx s1 = mcu_api_ctx s" "nvm_mem s1 = nvm_mem s"
      and q: "aes_all_success (n - k) (aes_status_queue s)
                = aes_all_success (n - Suc k) (aes_status_queue s1)"
    for s1
  proof -
    from IH [of s1] obtain st enc' s' m where
      res: "encrypt_blocks cipher n (Suc k) d K c (write_block enc k c) s1 = ((st, enc'), s')"
      and fr: "mcu_api_ctx s' = mcu_api_ctx s1" "nvm_mem s' = nvm_mem s1"
      and m: "m \<le> n - Suc k"
      and enc: "enc' = write_blocks (write_block enc k c) (Suc k) (take m (cbc_chain cipher K c ps))"
      and c: "if aes_all_success (n - Suc k) (aes_status_queue s1)
          then st = SFX_ERR_NONE \<and> m = n - Suc k
               \<and> trace s' = trace s1 @ aes_events cipher K c ps
          else st = MCU_ERR_API_AES
               \<and> trace s' = trace s1 @ take (Suc m) (aes_events cipher K c ps)"
      by blast
    have "Suc m \<le> n - k" using m kn by simp
    moreover have "enc' = write_blocks enc k
        (take (Suc m) (cbc_chain cipher K data_out (map (data_block d) [k..<n])))"
      by (simp add: enc blocks c_def)
    moreover have "if aes_all_success (n - k) (aes_status_queue s)
          then st = SFX_ERR_NONE \<and> Suc m = n - k
               \<and> trace s' = trace s @ aes_events cipher K data_out (map (data_block d) [k..<n])
          else st = MCU_ERR_API_AES
               \<and> trace s' = trace s
                    @ take (Suc (Suc m)) (aes_events cipher K data_out (map (data_block d) [k..<n]))"
      using c kn by (simp add: q blocks s1 c_def ev_def split: if_splits)
    ultimately show ?thesis
      using eq res fr s1 by (simp only:) blast
  qed
  show ?case
  proof (cases "aes_status_queue s")
    case Nil
    show ?thesis
      by (rule continue [of "s\<lparr>trace := trace s @ [ev]\<rparr>"])
         (simp_all add: step Nil aes_all_success_def)
  next
    case (Cons x q)
    show ?thesis
    proof (cases "x = AES_SUCCESS")
      case True
      show ?thesis
        by (rule continue [of "s\<lparr>trace := trace s @ [ev], aes_status_queue := q\<rparr>"])
           (simp_all add: step Cons True aes_all_success_def nk)
    next
      case False
      have "encrypt_blocks cipher n k d K data_out enc s
          = ((MCU_ERR_API_AES, enc), s\<lparr>trace := trace s @ [ev], aes_status_queue := q\<rparr>)"
        by (simp add: step Cons False)
      moreover have "\<not> aes_all_success (n - k) (aes_status_queue s)"
        by (simp add: Cons False aes_all_success_def nk)
      ultimately show ?thesis
        by (simp add: blocks ev_def exI [of _ 0])
    qed
  qed
qed


lemma write_block_nth:
  assumes "m < length buf"
  shows "write_block buf i c ! m
         = (if i * AES_BLOCK_SIZE \<le> m \<and> m < i * AES_BLOCK_SIZE + AES_BLOCK_SIZE
            then c ! (m - i * AES_BLOCK_SIZE) else buf ! m)"
proof -
  let ?f = "\<lambda>byte_idx b. b[i * AES_BLOCK_SIZE + byte_idx := c ! byte_idx]"
  have "length (fold ?f [0..<j] buf) = length buf
        \<and> fold ?f [0..<j] buf ! m
            = (if i * AES_BLOCK_SIZE \<le> m \<and> m < i * AES_BLOCK_SIZE + j
               then c ! (m - i * AES_BLOCK_SIZE) else buf ! m)" for j
  proof (induction j)
    case 0
    then show ?case by auto
  next
    case (Suc j)
    let ?g = "fold ?f [0..<j] buf"
    from Suc have len: "length ?g = length buf"
      and nth: "?g ! m = (if i * AES_BLOCK_SIZE \<le> m \<and> m < i * AES_BLOCK_SIZE + j
                          then c ! (m - i * AES_BLOCK_SIZE) else buf ! m)"
      by simp_all
    have step: "fold ?f [0..<Suc j] buf = ?g[i * AES_BLOCK_SIZE + j := c ! j]"
      by simp
    show ?case
    proof (cases "m = i * AES_BLOCK_SIZE + j")
      case True
      with assms len show ?thesis
        by (simp only: step) simp
    next
      case False
      then have "?g[i * AES_BLOCK_SIZE + j := c ! j] ! m = ?g ! m"
        by simp
      moreover from False have "m < i * AES_BLOCK_SIZE + Suc j \<longleftrightarrow> m < i * AES_BLOCK_SIZE + j"
        by auto
      ultimately show ?thesis
        using len nth by (simp only: step) simp
    qed
  qed
  then show ?thesis by (simp add: write_block_def)
qed

lemma data_block_write_block:
  assumes "(i' + 1) * AES_BLOCK_SIZE \<le> length buf" "length c = AES_BLOCK_SIZE"
  shows "data_block (write_block buf i c) i' = (if i' = i then c else data_block buf i')"
proof -
  have "data_block (write_block buf i c) i' ! j
        = (if i' = i then c else data_block buf i') ! j" if "j < AES_BLOCK_SIZE" for j
  proof -
    have m: "i' * AES_BLOCK_SIZE + j < length buf" using assms(1) that by simp
    have "(i * AES_BLOCK_SIZE \<le> i' * AES_BLOCK_SIZE + j
            \<and> i' * AES_BLOCK_SIZE + j < i * AES_BLOCK_SIZE + AES_BLOCK_SIZE) \<longleftrightarrow> i' = i"
    proof
      assume a: "i * AES_BLOCK_SIZE \<le> i' * AES_BLOCK_SIZE + j
            \<and> i' * AES_BLOCK_SIZE + j < i * AES_BLOCK_SIZE + AES_BLOCK_SIZE"
      show "i' = i"
      proof (rule ccontr)
        assume "i' \<noteq> i"
        then consider "i' < i" | "i < i'" by linarith
        then show False
        proof cases
          case 1
          then have "(i' + 1) * AES_BLOCK_SIZE \<le> i * AES_BLOCK_SIZE"
            by (intro mult_le_mono1) simp
          with a that show False by simp
        next
          case 2
          then have "(i + 1) * AES_BLOCK_SIZE \<le> i' * AES_BLOCK_SIZE"
            by (intro mult_le_mono1) simp
          with a show False by simp
        qed
      qed
    next
      assume "i' = i"
      with that show "i * AES_BLOCK_SIZE \<le> i' * AES_BLOCK_SIZE + j
            \<and> i' * AES_BLOCK_SIZE + j < i * AES_BLOCK_SIZE + AES_BLOCK_SIZE" by simp
    qed
    with write_block_nth [OF m, of i c] that show ?thesis
      by (auto simp: data_block_def)
  qed
  moreover have "length (data_block (write_block buf i c) i') = AES_BLOCK_SIZE"
    "length (if i' = i then c else data_block buf i') = AES_BLOCK_SIZE"
    using assms(2) by (simp_all add: data_block_def)
  ultimately show ?thesis
    by (intro nth_equalityI) simp_all
qed

lemma data_block_write_blocks:
  assumes "(i + 1) * AES_BLOCK_SIZE \<le> length buf" "list_all (\<lambda>c. length c = AES_BLOCK_SIZE) cs"
  shows "data_block (write_blocks buf k cs) i
         = (if k \<le> i \<and> i < k + length cs then cs ! (i - k) else data_block buf i)"
  using assms
proof (induction cs arbitrary: buf k)
  case Nil
  then show ?case by auto
next
  case (Cons c cs)
  from Cons.prems have len: "(i + 1) * AES_BLOCK_SIZE \<le> length (write_block buf k c)"
    and all: "list_all (\<lambda>c. length c = AES_BLOCK_SIZE) cs" and c: "length c = AES_BLOCK_SIZE"
    by simp_all
  show ?case
    using Cons.IH [OF len all, of "k + 1"] data_block_write_block [OF Cons.prems(1) c, of k]
    by (auto simp: nth_Cons')
qed


lemma cbc_chain_nth:
  "i < length ps \<Longrightarrow>
   cbc_chain cipher K iv ps ! i
   = cipher (ps ! i) (if i = 0 then iv else cbc_chain cipher K iv ps ! (i - 1)) K"
proof (induction ps arbitrary: iv i)
  case Nil
  then show ?case by simp
next
  case (Cons p ps)
  show ?case
  proof (cases i)
    case 0
    then show ?thesis by simp
  next
    case (Suc j)
    with Cons.prems have "j < length ps" by simp
    from Cons.IH [OF this, of "cipher p iv K"] Suc show ?thesis
      by (cases j) simp_all
  qed
qed

lemma aes_events_nth:
  "i < length ps \<Longrightarrow>
   aes_events cipher K iv ps ! i
   = Ev_AES_encrypt (ps ! i) (if i = 0 then iv else cbc_chain cipher K iv ps ! (i - 1)) K"
proof (induction ps arbitrary: iv i)
  case Nil
  then show ?case by simp
next
  case (Cons p ps)
  show ?case
  proof (cases i)
    case 0
    then show ?thesis by simp
  next
    case (Suc j)
    with Cons.prems have "j < length ps" by simp
    from Cons.IH [OF this, of "cipher p iv K"] Suc show ?thesis
      by (cases j) simp_all
  qed
qed

lemma cbc_chain_wf:
  "cipher_wf cipher \<Longrightarrow> list_all (\<lambda>c. length c = AES_BLOCK_SIZE) (cbc_chain cipher K iv ps)"
  by (induction ps arbitrary: iv) (simp_all add: cipher_wf_def)


lemma retrieve_device_key_char:
  "length lk = AES_BLOCK_SIZE \<Longrightarrow> b \<le> AES_BLOCK_SIZE \<Longrightarrow>
   \<exists>st lk' s'. retrieve_device_key b kb lk s = ((st, lk'), s')
     \<and> trace s' = trace s \<and> mcu_api_ctx s' = mcu_api_ctx s \<and> nvm_mem s' = nvm_mem s
     \<and> aes_status_queue s' = aes_status_queue s
     \<and> (st = NVM_SUCCESS \<longrightarrow>
          lk' = take b lk
                @ map (\<lambda>byte_idx. nvm_mem s (NVM_ADDRESS_SIGFOX_DEVICE_KEY + byte_idx))
                    [b..<AES_BLOCK_SIZE])
     \<and> (NVM_ADDRESS_SIGFOX_DEVICE_KEY + AES_BLOCK_SIZE \<le> nvm_size s
          \<and> nvm_all_success (AES_BLOCK_SIZE - b) (nvm_status_queue s) \<longrightarrow> st = NVM_SUCCESS)"
proof (induction "AES_BLOCK_SIZE - b" arbitrary: b kb lk s)
  case 0
  then have "b = AES_BLOCK_SIZE" by simp
  with "0.prems" show ?case
    by (subst retrieve_device_key.simps) simp
next
  case (Suc j)
  then have b: "b < AES_BLOCK_SIZE" and j: "j = AES_BLOCK_SIZE - (b + 1)" by simp_all
  have nb: "AES_BLOCK_SIZE - b = Suc (AES_BLOCK_SIZE - (b + 1))" using b by simp
  obtain st kb1 s1 where rd: "NVM_read_byte (NVM_ADDRESS_SIGFOX_DEVICE_KEY + b) kb s = ((st, kb1), s1)"
    by (metis surj_pair)
  then have s1: "trace s1 = trace s" "mcu_api_ctx s1 = mcu_api_ctx s" "nvm_mem s1 = nvm_mem s"
    "aes_status_queue s1 = aes_status_queue s" "nvm_size s1 = nvm_size s"
    and ok: "st = NVM_SUCCESS \<longrightarrow> kb1 = nvm_mem s (NVM_ADDRESS_SIGFOX_DEVICE_KEY + b)"
    and q: "NVM_ADDRESS_SIGFOX_DEVICE_KEY + AES_BLOCK_SIZE \<le> nvm_size s
          \<and> nvm_all_success (AES_BLOCK_SIZE - b) (nvm_status_queue s)
          \<longrightarrow> st = NVM_SUCCESS \<and> nvm_all_success (AES_BLOCK_SIZE - (b + 1)) (nvm_status_queue s1)"
    using b nb
    by (auto simp: NVM_read_byte_def next_nvm_status_def nvm_all_success_def Let_def
        split: if_splits list.splits)
  show ?case
  proof (cases "st = NVM_SUCCESS")
    case False
    with rd b s1 q show ?thesis
      by (subst retrieve_device_key.simps) auto
  next
    case True
    have eq: "retrieve_device_key b kb lk s = retrieve_device_key (b + 1) kb1 (lk[b := kb1]) s1"
      using rd b True by (subst retrieve_device_key.simps) simp
    have len: "length (lk[b := kb1]) = AES_BLOCK_SIZE" using Suc.prems by simp
    from Suc.hyps(1) [OF j len, of kb1 s1] b
    obtain st' lk' s' where
      res: "retrieve_device_key (b + 1) kb1 (lk[b := kb1]) s1 = ((st', lk'), s')"
      and fr: "trace s' = trace s1" "mcu_api_ctx s' = mcu_api_ctx s1" "nvm_mem s' = nvm_mem s1"
        "aes_status_queue s' = aes_status_queue s1"
      and k: "st' = NVM_SUCCESS \<longrightarrow>
          lk' = take (b + 1) (lk[b := kb1])
                @ map (\<lambda>byte_idx. nvm_mem s1 (NVM_ADDRESS_SIGFOX_DEVICE_KEY + byte_idx))
                    [b + 1..<AES_BLOCK_SIZE]"
      and q': "NVM_ADDRESS_SIGFOX_DEVICE_KEY + AES_BLOCK_SIZE \<le> nvm_size s1
          \<and> nvm_all_success (AES_BLOCK_SIZE - (b + 1)) (nvm_status_queue s1) \<longrightarrow> st' = NVM_SUCCESS"
      by auto
    have "take (b + 1) (lk[b := kb1]) = take b lk @ [kb1]"
      using b Suc.prems by (simp add: take_Suc_conv_app_nth)
    with k ok True b have "st' = NVM_SUCCESS \<longrightarrow>
          lk' = take b lk
                @ map (\<lambda>byte_idx. nvm_mem s (NVM_ADDRESS_SIGFOX_DEVICE_KEY + byte_idx))
                    [b..<AES_BLOCK_SIZE]"
      by (simp add: s1 upt_conv_Cons)
    with eq res fr s1 q q' show ?thesis by auto
  qed
qed

lemma key_argument_copy:
  "fold (\<lambda>byte_idx k. k[byte_idx := key ! byte_idx]) [0..<AES_BLOCK_SIZE] (replicate AES_BLOCK_SIZE 0)
   = key_argument_bytes key"
proof -
  have "fold (\<lambda>byte_idx k. k[byte_idx := key ! byte_idx]) [0..<AES_BLOCK_SIZE] lk
        = write_block lk 0 key" for lk
    by (simp add: write_block_def)
  moreover have "write_block (replicate AES_BLOCK_SIZE 0) 0 key = key_argument_bytes key"
    by (rule nth_equalityI) (simp_all add: write_block_nth key_argument_bytes_def)
  ultimately show ?thesis by simp
qed



lemma data_block_concat:
  "list_all (\<lambda>c. length c = AES_BLOCK_SIZE) cs \<Longrightarrow> i < length cs
   \<Longrightarrow> data_block (concat cs) i = cs ! i"
proof (induction cs arbitrary: i)
  case Nil
  then show ?case by simp
next
  case (Cons c cs)
  then have c: "length c = AES_BLOCK_SIZE" and all: "list_all (\<lambda>c. length c = AES_BLOCK_SIZE) cs"
    by simp_all
  show ?case
  proof (cases i)
    case 0
    have "map (\<lambda>byte_idx. (c @ concat cs) ! byte_idx) [0..<length c] = c"
      by (intro nth_equalityI) (simp_all add: nth_append)
    with 0 c show ?thesis by (simp add: data_block_def)
  next
    case (Suc j)
    with Cons.prems have "j < length cs" by simp
    from Cons.IH [OF all this] Suc c show ?thesis
      by (simp add: data_block_def nth_append)
  qed
qed

lemma list_eq_data_blocks:
  assumes "length xs = n * AES_BLOCK_SIZE" "length ys = n * AES_BLOCK_SIZE"
    and "\<And>i. i < n \<Longrightarrow> data_block xs i = data_block ys i"
  shows "xs = ys"
proof (rule nth_equalityI)
  show "length xs = length ys" using assms by simp
next
  fix m assume m: "m < length xs"
  have B: "0 < AES_BLOCK_SIZE" by (simp add: AES_BLOCK_SIZE_def)
  from m assms(1) have i: "m div AES_BLOCK_SIZE < n"
    by (simp add: less_mult_imp_div_less)
  have j: "m mod AES_BLOCK_SIZE < AES_BLOCK_SIZE" using B by simp
  have "xs ! m = data_block xs (m div AES_BLOCK_SIZE) ! (m mod AES_BLOCK_SIZE)"
    using j by (simp add: data_block_def)
  also have "\<dots> = data_block ys (m div AES_BLOCK_SIZE) ! (m mod AES_BLOCK_SIZE)"
    using assms(3) [OF i] by simp
  also have "\<dots> = ys ! m"
    using j by (simp add: data_block_def)
  finally show "xs ! m = ys ! m" .
qed


lemma MCU_API_aes_128_cbc_encrypt_char:
  assumes wf: "cipher_wf cipher"
  shows "\<exists>st enc' s' m.
     MCU_API_aes_128_cbc_encrypt cipher enc d len key use_key s = ((st, enc'), s')
     \<and> mcu_api_ctx s' = mcu_api_ctx s \<and> nvm_mem s' = nvm_mem s
     \<and> m \<le> unat len div AES_BLOCK_SIZE
     \<and> enc' = write_blocks enc 0
                (take m (cbc_chain cipher (selected_key use_key key s) (replicate AES_BLOCK_SIZE 0)
                           (map (data_block d) [0..<unat len div AES_BLOCK_SIZE])))
     \<and> (\<exists>j \<le> unat len div AES_BLOCK_SIZE.
           trace s' = trace s
             @ take j (aes_events cipher (selected_key use_key key s) (replicate AES_BLOCK_SIZE 0)
                         (map (data_block d) [0..<unat len div AES_BLOCK_SIZE])))
     \<and> (if key_available use_key s
            \<and> aes_all_success (unat len div AES_BLOCK_SIZE) (aes_status_queue s)
         then st = SFX_ERR_NONE \<and> m = unat len div AES_BLOCK_SIZE
              \<and> trace s' = trace s
                   @ aes_events cipher (selected_key use_key key s) (replicate AES_BLOCK_SIZE 0)
                       (map (data_block d) [0..<unat len div AES_BLOCK_SIZE])
         else st = MCU_ERR_API_AES \<and> (\<not> key_available use_key s \<longrightarrow> m = 0 \<and> trace s' = trace s))"
proof -
  define n where "n = unat len div AES_BLOCK_SIZE"
  define zeros :: "sfx_u8 list" where "zeros = replicate AES_BLOCK_SIZE 0"
  define ps where "ps = map (data_block d) [0..<n]"
  define Post where "Post = (\<lambda>K av st enc' (s' :: mcu_state) m.
     mcu_api_ctx s' = mcu_api_ctx s \<and> nvm_mem s' = nvm_mem s
     \<and> m \<le> n
     \<and> enc' = write_blocks enc 0 (take m (cbc_chain cipher K zeros ps))
     \<and> (\<exists>j \<le> n. trace s' = trace s @ take j (aes_events cipher K zeros ps))
     \<and> (if av \<and> aes_all_success n (aes_status_queue s)
         then st = SFX_ERR_NONE \<and> m = n \<and> trace s' = trace s @ aes_events cipher K zeros ps
         else st = MCU_ERR_API_AES \<and> (\<not> av \<longrightarrow> m = 0 \<and> trace s' = trace s)))"
  have goal: ?thesis
    if "\<exists>st enc' s' m.
          MCU_API_aes_128_cbc_encrypt cipher enc d len key use_key s = ((st, enc'), s')
          \<and> Post (selected_key use_key key s) (key_available use_key s) st enc' s' m"
    using that unfolding Post_def ps_def zeros_def n_def by blast
  have lz: "length zeros = AES_BLOCK_SIZE" by (simp add: zeros_def)
  have early: "Post K False MCU_ERR_API_AES enc s1 0"
    if "trace s1 = trace s" "mcu_api_ctx s1 = mcu_api_ctx s" "nvm_mem s1 = nvm_mem s" for K s1
    using that unfolding Post_def by (simp add: exI [of _ 0])
  have loop: "\<exists>st enc' s' m. encrypt_blocks cipher n 0 d K zeros enc s1 = ((st, enc'), s')
     \<and> Post K True st enc' s' m"
    if s1: "trace s1 = trace s" "mcu_api_ctx s1 = mcu_api_ctx s" "nvm_mem s1 = nvm_mem s"
      "aes_status_queue s1 = aes_status_queue s" for K s1
  proof -
    from encrypt_blocks_char [OF wf lz, of n 0 d K enc s1, folded ps_def]
    obtain st enc' s' m where
      res: "encrypt_blocks cipher n 0 d K zeros enc s1 = ((st, enc'), s')"
      and fr: "mcu_api_ctx s' = mcu_api_ctx s1" "nvm_mem s' = nvm_mem s1"
      and m: "m \<le> n"
      and enc: "enc' = write_blocks enc 0 (take m (cbc_chain cipher K zeros ps))"
      and c: "if aes_all_success n (aes_status_queue s1)
          then st = SFX_ERR_NONE \<and> m = n \<and> trace s' = trace s1 @ aes_events cipher K zeros ps
          else st = MCU_ERR_API_AES
               \<and> trace s' = trace s1 @ take (Suc m) (aes_events cipher K zeros ps)"
      by (auto simp: ps_def)
    have len: "length (aes_events cipher K zeros ps) = n" by (simp add: ps_def)
    have "\<exists>j \<le> n. trace s' = trace s @ take j (aes_events cipher K zeros ps)"
    proof (cases "aes_all_success n (aes_status_queue s1)")
      case True
      with c len s1 show ?thesis by (intro exI [of _ n]) simp
    next
      case False
      with c len s1 show ?thesis
        by (intro exI [of _ "min (Suc m) n"]) (simp add: min_def)
    qed
    with fr m enc c s1 have "Post K True st enc' s' m"
      unfolding Post_def by (simp split: if_splits)
    with res show ?thesis by blast
  qed
  show ?thesis
  proof (cases use_key)
    case (CREDENTIALS_OTHER v)
    have "MCU_API_aes_128_cbc_encrypt cipher enc d len key use_key s = ((MCU_ERR_API_AES, enc), s)"
      by (simp add: MCU_API_aes_128_cbc_encrypt_def CREDENTIALS_OTHER)
    moreover have "\<not> key_available use_key s"
      by (simp add: key_available_def CREDENTIALS_OTHER)
    ultimately show ?thesis
      using early [of s] by (intro goal) auto
  next
    case CREDENTIALS_KEY_IN_ARGUMENT
    have "MCU_API_aes_128_cbc_encrypt cipher enc d len key use_key s
        = encrypt_blocks cipher n 0 d (key_argument_bytes key) zeros enc s"
      by (simp add: MCU_API_aes_128_cbc_encrypt_def CREDENTIALS_KEY_IN_ARGUMENT key_argument_copy
            n_def zeros_def)
    moreover have "key_available use_key s" "selected_key use_key key s = key_argument_bytes key"
      by (simp_all add: key_available_def selected_key_def CREDENTIALS_KEY_IN_ARGUMENT)
    ultimately show ?thesis
      using loop [of s "key_argument_bytes key"] by (intro goal) auto
  next
    case CREDENTIALS_PRIVATE_KEY
    from retrieve_device_key_char [OF lz, of 0 0 s]
    obtain st lk' s1 where
      rk: "retrieve_device_key 0 0 zeros s = ((st, lk'), s1)"
      and s1: "trace s1 = trace s" "mcu_api_ctx s1 = mcu_api_ctx s" "nvm_mem s1 = nvm_mem s"
        "aes_status_queue s1 = aes_status_queue s"
      and k: "st = NVM_SUCCESS \<longrightarrow> lk' = device_key_bytes s"
      by (auto simp: device_key_bytes_def)
    have av: "key_available use_key s \<longleftrightarrow> st = NVM_SUCCESS"
      using rk by (simp add: key_available_def CREDENTIALS_PRIVATE_KEY zeros_def)
    have sel: "selected_key use_key key s = device_key_bytes s"
      by (simp add: selected_key_def CREDENTIALS_PRIVATE_KEY)
    show ?thesis
    proof (cases "st = NVM_SUCCESS")
      case False
      then have "MCU_API_aes_128_cbc_encrypt cipher enc d len key use_key s
          = ((MCU_ERR_API_AES, enc), s1)"
        using rk by (simp add: MCU_API_aes_128_cbc_encrypt_def CREDENTIALS_PRIVATE_KEY zeros_def)
      with False av early [OF s1(1-3)] show ?thesis
        by (intro goal) auto
    next
      case True
      then have "MCU_API_aes_128_cbc_encrypt cipher enc d len key use_key s
          = encrypt_blocks cipher n 0 d (device_key_bytes s) zeros enc s1"
        using rk k
        by (simp add: MCU_API_aes_128_cbc_encrypt_def CREDENTIALS_PRIVATE_KEY zeros_def n_def)
      with True av sel loop [OF s1, of "device_key_bytes s"] show ?thesis
        by (intro goal) auto
    qed
  qed
qed



lemma length_concat_blocks:
  "list_all (\<lambda>c. length c = AES_BLOCK_SIZE) cs \<Longrightarrow> length (concat cs) = length cs * AES_BLOCK_SIZE"
  by (induction cs) simp_all

lemma cbc_success_output:
  assumes wf: "cipher_wf cipher"
    and call: "MCU_API_aes_128_cbc_encrypt cipher enc d len key use_key s = ((SFX_ERR_NONE, enc'), s')"
  shows "enc' = write_blocks enc 0
                  (cbc_chain cipher (selected_key use_key key s) (replicate AES_BLOCK_SIZE 0)
                     (map (data_block d) [0..<unat len div AES_BLOCK_SIZE]))"
    and "trace s' = trace s
           @ aes_events cipher (selected_key use_key key s) (replicate AES_BLOCK_SIZE 0)
               (map (data_block d) [0..<unat len div AES_BLOCK_SIZE])"
    and "mcu_api_ctx s' = mcu_api_ctx s" and "nvm_mem s' = nvm_mem s"
    and "key_available use_key s"
    and "aes_all_success (unat len div AES_BLOCK_SIZE) (aes_status_queue s)"
  using MCU_API_aes_128_cbc_encrypt_char [OF wf, of enc d len key use_key s] call
  by (auto split: if_splits)

lemma cbc_success_concat:
  assumes wf: "cipher_wf cipher"
    and mult: "unat len mod AES_BLOCK_SIZE = 0"
    and le: "length enc = unat len"
    and call: "MCU_API_aes_128_cbc_encrypt cipher enc d len key use_key s = ((SFX_ERR_NONE, enc'), s')"
  shows "enc' = concat (cbc_chain cipher (selected_key use_key key s) (replicate AES_BLOCK_SIZE 0)
                          (map (data_block d) [0..<unat len div AES_BLOCK_SIZE]))"
    and "i < unat len div AES_BLOCK_SIZE \<Longrightarrow>
         data_block enc' i
         = cbc_chain cipher (selected_key use_key key s) (replicate AES_BLOCK_SIZE 0)
             (map (data_block d) [0..<unat len div AES_BLOCK_SIZE]) ! i"
proof -
  define n where "n = unat len div AES_BLOCK_SIZE"
  define cs where "cs = cbc_chain cipher (selected_key use_key key s) (replicate AES_BLOCK_SIZE 0)
                          (map (data_block d) [0..<n])"
  have enc': "enc' = write_blocks enc 0 cs"
    using cbc_success_output(1) [OF wf call] by (simp add: cs_def n_def)
  have all: "list_all (\<lambda>c. length c = AES_BLOCK_SIZE) cs"
    unfolding cs_def by (rule cbc_chain_wf [OF wf])
  have lcs: "length cs = n" by (simp add: cs_def)
  have len: "length enc = n * AES_BLOCK_SIZE"
    using mult le by (simp add: n_def mod_eq_0_iff_dvd)
  have blk: "data_block enc' i = cs ! i" if "i < n" for i
  proof -
    have "(i + 1) * AES_BLOCK_SIZE \<le> n * AES_BLOCK_SIZE"
      using that by (intro mult_le_mono1) simp
    with data_block_write_blocks [of i enc cs 0] all len lcs that show ?thesis
      by (simp add: enc')
  qed
  have "enc' = concat cs"
  proof (rule list_eq_data_blocks [of _ n])
    show "length enc' = n * AES_BLOCK_SIZE" by (simp add: enc' len)
    show "length (concat cs) = n * AES_BLOCK_SIZE"
      using length_concat_blocks [OF all] lcs by simp
    show "data_block enc' i = data_block (concat cs) i" if "i < n" for i
      using blk [OF that] data_block_concat [OF all, of i] that lcs by simp
  qed
  then show "enc' = concat (cbc_chain cipher (selected_key use_key key s) (replicate AES_BLOCK_SIZE 0)
                          (map (data_block d) [0..<unat len div AES_BLOCK_SIZE]))"
    by (simp add: cs_def n_def)
  show "data_block enc' i
         = cbc_chain cipher (selected_key use_key key s) (replicate AES_BLOCK_SIZE 0)
             (map (data_block d) [0..<unat len div AES_BLOCK_SIZE]) ! i"
    if "i < unat len div AES_BLOCK_SIZE"
    using blk [of i] that by (simp add: cs_def n_def)
qed

text \<open>
  C1. Let the length be a multiple of 16, the input and output buffers of that length,
  and the call successful. Then the output is the concatenation of the ciphertext blocks
  of the chain over the input blocks in order: block 0 is the cipher applied to input
  block 0 with an all-zero initialization vector, and block \<open>i > 0\<close> is the cipher
  applied to input block \<open>i\<close> with output block \<open>i - 1\<close> as its initialization vector,
  all under the selected key. The AES calls the call records are exactly these, in the
  order of the blocks. The static context is unchanged, and any other successful call
  with the same cipher, input, length, key argument and mode, in any other state with the
  same selected key and with any initial content of the output buffer, produces the same
  output.
\<close>

theorem MCU_API_aes_128_cbc_encrypt_chains_blocks:
  assumes wf: "cipher_wf cipher"
    and mult: "unat aes_block_len mod AES_BLOCK_SIZE = 0"
    and ld: "length data_to_encrypt = unat aes_block_len"
    and le: "length encrypted_data = unat aes_block_len"
    and call: "MCU_API_aes_128_cbc_encrypt cipher encrypted_data data_to_encrypt aes_block_len
                 key use_key s = ((SFX_ERR_NONE, enc'), s')"
  shows "enc' = concat (cbc_chain cipher (selected_key use_key key s) (replicate AES_BLOCK_SIZE 0)
                          (map (data_block data_to_encrypt) [0..<unat aes_block_len div AES_BLOCK_SIZE]))
    \<and> (\<forall>i < unat aes_block_len div AES_BLOCK_SIZE.
          data_block enc' i
          = cipher (data_block data_to_encrypt i)
              (if i = 0 then replicate AES_BLOCK_SIZE 0 else data_block enc' (i - 1))
              (selected_key use_key key s))
    \<and> events_since s s'
        = map (\<lambda>i. Ev_AES_encrypt (data_block data_to_encrypt i)
                      (if i = 0 then replicate AES_BLOCK_SIZE 0 else data_block enc' (i - 1))
                      (selected_key use_key key s))
            [0..<unat aes_block_len div AES_BLOCK_SIZE]
    \<and> mcu_api_ctx s' = mcu_api_ctx s
    \<and> (length encrypted_data2 = unat aes_block_len
         \<and> selected_key use_key key s2 = selected_key use_key key s
         \<and> MCU_API_aes_128_cbc_encrypt cipher encrypted_data2 data_to_encrypt aes_block_len
              key use_key s2 = ((SFX_ERR_NONE, enc2), s2')
        \<longrightarrow> enc2 = enc')"
proof -
  define n where "n = unat aes_block_len div AES_BLOCK_SIZE"
  define K where "K = selected_key use_key key s"
  define zeros :: "sfx_u8 list" where "zeros = replicate AES_BLOCK_SIZE 0"
  define ps where "ps = map (data_block data_to_encrypt) [0..<n]"
  define cs where "cs = cbc_chain cipher K zeros ps"
  have out: "enc' = concat cs"
    using cbc_success_concat(1) [OF wf mult le call]
    by (simp add: cs_def ps_def K_def zeros_def n_def)
  have blk: "data_block enc' i = cs ! i" if "i < n" for i
    using cbc_success_concat(2) [OF wf mult le call, of i] that
    by (simp add: cs_def ps_def K_def zeros_def n_def)
  have chain: "data_block enc' i
      = cipher (data_block data_to_encrypt i) (if i = 0 then zeros else data_block enc' (i - 1)) K"
    if "i < n" for i
  proof -
    have "cs ! i = cipher (ps ! i) (if i = 0 then zeros else cs ! (i - 1)) K"
      unfolding cs_def using that by (intro cbc_chain_nth) (simp add: ps_def)
    moreover have "ps ! i = data_block data_to_encrypt i"
      using that by (simp add: ps_def)
    moreover have "cs ! (i - 1) = data_block enc' (i - 1)" if "i \<noteq> 0"
      using blk [of "i - 1"] \<open>i < n\<close> that by simp
    ultimately show ?thesis using blk [OF that] by auto
  qed
  have tr: "trace s' = trace s @ aes_events cipher K zeros ps"
    using cbc_success_output(2) [OF wf call] by (simp add: ps_def K_def zeros_def n_def)
  have ev: "events_since s s'
      = map (\<lambda>i. Ev_AES_encrypt (data_block data_to_encrypt i)
                    (if i = 0 then zeros else data_block enc' (i - 1)) K) [0..<n]"
  proof (rule nth_equalityI)
    show "length (events_since s s')
        = length (map (\<lambda>i. Ev_AES_encrypt (data_block data_to_encrypt i)
                    (if i = 0 then zeros else data_block enc' (i - 1)) K) [0..<n])"
      by (simp add: events_since_def tr ps_def)
  next
    fix i assume "i < length (events_since s s')"
    then have i: "i < n" by (simp add: events_since_def tr ps_def)
    then have "events_since s s' ! i
        = Ev_AES_encrypt (ps ! i) (if i = 0 then zeros else cs ! (i - 1)) K"
      by (simp add: events_since_def tr aes_events_nth ps_def cs_def)
    moreover have "ps ! i = data_block data_to_encrypt i"
      using i by (simp add: ps_def)
    moreover have "cs ! (i - 1) = data_block enc' (i - 1)" if "i \<noteq> 0"
      using blk [of "i - 1"] i that by simp
    ultimately show "events_since s s' ! i
        = map (\<lambda>i. Ev_AES_encrypt (data_block data_to_encrypt i)
                    (if i = 0 then zeros else data_block enc' (i - 1)) K) [0..<n] ! i"
      using i by auto
  qed
  have ctx: "mcu_api_ctx s' = mcu_api_ctx s"
    by (rule cbc_success_output(3) [OF wf call])
  have same: "enc2 = enc'"
    if "length encrypted_data2 = unat aes_block_len"
      and "selected_key use_key key s2 = selected_key use_key key s"
      and "MCU_API_aes_128_cbc_encrypt cipher encrypted_data2 data_to_encrypt aes_block_len
              key use_key s2 = ((SFX_ERR_NONE, enc2), s2')"
    using cbc_success_concat(1) [OF wf mult that(1) that(3)] that(2) out
    by (simp add: cs_def ps_def K_def zeros_def n_def)
  from out chain ev ctx same show ?thesis
    by (simp add: cs_def ps_def K_def zeros_def n_def)
qed

lemma toy_cipher_wf: "cipher_wf toy_cipher"
  by (simp add: cipher_wf_def toy_cipher_def)

theorem MCU_API_aes_128_cbc_encrypt_chains_blocks_witness:
  "cipher_wf toy_cipher
   \<and> unat (32 :: sfx_u8) mod AES_BLOCK_SIZE = 0
   \<and> length aes_test_data = unat (32 :: sfx_u8)
   \<and> length (replicate 32 (0 :: sfx_u8)) = unat (32 :: sfx_u8)
   \<and> fst (MCU_API_aes_128_cbc_encrypt toy_cipher (replicate 32 0) aes_test_data 32 aes_test_key
             CREDENTIALS_KEY_IN_ARGUMENT mcu_state_init)
       = (SFX_ERR_NONE,
          [3, 4, 5, 6, 7, 8, 9, 10, 11, 12, 13, 14, 15, 16, 17, 18,
           22, 24, 26, 24, 22, 32, 34, 32, 22, 24, 26, 24, 22, 16, 18, 16])
   \<and> [3, 4, 5, 6, 7, 8, 9, 10, 11, 12, 13, 14, 15, 16, 17, 18,
       22, 24, 26, 24, 22, 32, 34, 32, 22, 24, 26, 24, 22, 16, 18, 16]
       = concat (cbc_chain toy_cipher
                   (selected_key CREDENTIALS_KEY_IN_ARGUMENT aes_test_key mcu_state_init)
                   (replicate AES_BLOCK_SIZE 0)
                   (map (data_block aes_test_data) [0..<unat (32 :: sfx_u8) div AES_BLOCK_SIZE]))"
proof -
  have h2: "unat (32 :: sfx_u8) mod AES_BLOCK_SIZE = 0"
    by (simp add: AES_BLOCK_SIZE_def)
  have h3: "length aes_test_data = unat (32 :: sfx_u8)"
    by (simp add: aes_test_data_def)
  have h4: "length (replicate 32 (0 :: sfx_u8)) = unat (32 :: sfx_u8)"
    by simp
  have ev: "fst (MCU_API_aes_128_cbc_encrypt toy_cipher (replicate 32 0) aes_test_data 32 aes_test_key
             CREDENTIALS_KEY_IN_ARGUMENT mcu_state_init)
       = (SFX_ERR_NONE,
          [3, 4, 5, 6, 7, 8, 9, 10, 11, 12, 13, 14, 15, 16, 17, 18,
           22, 24, 26, 24, 22, 32, 34, 32, 22, 24, 26, 24, 22, 16, 18, 16])"
    by code_simp
  then have h5: "MCU_API_aes_128_cbc_encrypt toy_cipher (replicate 32 0) aes_test_data 32 aes_test_key
             CREDENTIALS_KEY_IN_ARGUMENT mcu_state_init
       = ((SFX_ERR_NONE,
          [3, 4, 5, 6, 7, 8, 9, 10, 11, 12, 13, 14, 15, 16, 17, 18,
           22, 24, 26, 24, 22, 32, 34, 32, 22, 24, 26, 24, 22, 16, 18, 16]),
          snd (MCU_API_aes_128_cbc_encrypt toy_cipher (replicate 32 0) aes_test_data 32 aes_test_key
             CREDENTIALS_KEY_IN_ARGUMENT mcu_state_init))"
    by (metis prod.collapse)
  from MCU_API_aes_128_cbc_encrypt_chains_blocks [OF toy_cipher_wf h2 h3 h4 h5]
  have c: "[3, 4, 5, 6, 7, 8, 9, 10, 11, 12, 13, 14, 15, 16, 17, 18,
       22, 24, 26, 24, 22, 32, 34, 32, 22, 24, 26, 24, 22, 16, 18, 16]
       = concat (cbc_chain toy_cipher
                   (selected_key CREDENTIALS_KEY_IN_ARGUMENT aes_test_key mcu_state_init)
                   (replicate AES_BLOCK_SIZE 0)
                   (map (data_block aes_test_data) [0..<unat (32 :: sfx_u8) div AES_BLOCK_SIZE]))"
    by blast
  show ?thesis
    by (intro conjI toy_cipher_wf h2 h3 h4 ev c)
qed



lemma device_key_bytes_range:
  "device_key_bytes s
   = map (nvm_mem s) [NVM_ADDRESS_SIGFOX_DEVICE_KEY..<NVM_ADDRESS_SIGFOX_DEVICE_KEY + AES_BLOCK_SIZE]"
  by (rule nth_equalityI) (simp_all add: device_key_bytes_def)

lemma key_argument_bytes_id: "length key = AES_BLOCK_SIZE \<Longrightarrow> key_argument_bytes key = key"
  by (rule nth_equalityI) (simp_all add: key_argument_bytes_def)


lemma list_all_take: "list_all P xs \<Longrightarrow> list_all P (take j xs)"
  by (auto simp: list_all_iff dest: in_set_takeD)

text \<open>
  C5. The key depends on the mode only. With \<open>CREDENTIALS_PRIVATE_KEY\<close> every AES
  call of the function carries the 16 bytes of the store at addresses
  \<open>NVM_ADDRESS_SIGFOX_DEVICE_KEY\<close> to \<open>NVM_ADDRESS_SIGFOX_DEVICE_KEY + 15\<close>, a
  successful call makes one AES call per block and outputs the chain under that key, and
  the key argument has no influence on the result. With \<open>CREDENTIALS_KEY_IN_ARGUMENT\<close>
  every AES call carries the first 16 bytes of the key argument (the argument itself when
  it has 16 bytes), and a successful call outputs the chain under that key. With any
  other mode the call returns \<open>MCU_ERR_API_AES\<close> and leaves the output buffer and the
  whole state, the trace of AES calls included, as they were. No other code is returned.
\<close>

theorem MCU_API_aes_128_cbc_encrypt_key_selection:
  assumes wf: "cipher_wf cipher"
    and call: "MCU_API_aes_128_cbc_encrypt cipher encrypted_data data_to_encrypt aes_block_len
                 key use_key s = ((st, enc'), s')"
  shows "(use_key = CREDENTIALS_PRIVATE_KEY \<longrightarrow>
            list_all (uses_key (device_key_bytes s)) (events_since s s')
            \<and> (st = SFX_ERR_NONE \<longrightarrow>
                 length (events_since s s') = unat aes_block_len div AES_BLOCK_SIZE
                 \<and> enc' = write_blocks encrypted_data 0
                      (cbc_chain cipher (device_key_bytes s) (replicate AES_BLOCK_SIZE 0)
                         (map (data_block data_to_encrypt) [0..<unat aes_block_len div AES_BLOCK_SIZE])))
            \<and> MCU_API_aes_128_cbc_encrypt cipher encrypted_data data_to_encrypt aes_block_len
                 key2 use_key s = ((st, enc'), s'))
    \<and> (use_key = CREDENTIALS_KEY_IN_ARGUMENT \<longrightarrow>
            list_all (uses_key (key_argument_bytes key)) (events_since s s')
            \<and> (st = SFX_ERR_NONE \<longrightarrow>
                 length (events_since s s') = unat aes_block_len div AES_BLOCK_SIZE
                 \<and> enc' = write_blocks encrypted_data 0
                      (cbc_chain cipher (key_argument_bytes key) (replicate AES_BLOCK_SIZE 0)
                         (map (data_block data_to_encrypt) [0..<unat aes_block_len div AES_BLOCK_SIZE]))))
    \<and> (use_key \<noteq> CREDENTIALS_PRIVATE_KEY \<and> use_key \<noteq> CREDENTIALS_KEY_IN_ARGUMENT \<longrightarrow>
            st = MCU_ERR_API_AES \<and> enc' = encrypted_data \<and> s' = s)
    \<and> device_key_bytes s
        = map (nvm_mem s) [NVM_ADDRESS_SIGFOX_DEVICE_KEY..<NVM_ADDRESS_SIGFOX_DEVICE_KEY + AES_BLOCK_SIZE]
    \<and> (length key = AES_BLOCK_SIZE \<longrightarrow> key_argument_bytes key = key)
    \<and> (st = SFX_ERR_NONE \<or> st = MCU_ERR_API_AES)"
proof -
  let ?n = "unat aes_block_len div AES_BLOCK_SIZE"
  let ?ps = "map (data_block data_to_encrypt) [0..<?n]"
  let ?zeros = "replicate AES_BLOCK_SIZE (0 :: sfx_u8)"
  define K where "K = selected_key use_key key s"
  from MCU_API_aes_128_cbc_encrypt_char [OF wf, of encrypted_data data_to_encrypt aes_block_len
      key use_key s] call
  obtain j where j: "j \<le> ?n" "trace s' = trace s @ take j (aes_events cipher K ?zeros ?ps)"
    and status: "st = SFX_ERR_NONE \<or> st = MCU_ERR_API_AES"
    by (auto simp: K_def split: if_splits)
  have used: "list_all (uses_key K) (events_since s s')"
    using j by (simp add: events_since_def list_all_take aes_events_uses_key)
  have ok: "st = SFX_ERR_NONE \<longrightarrow> length (events_since s s') = ?n
      \<and> enc' = write_blocks encrypted_data 0 (cbc_chain cipher K ?zeros ?ps)"
  proof
    assume st: "st = SFX_ERR_NONE"
    from cbc_success_output(1,2) [OF wf call [unfolded st]]
    show "length (events_since s s') = ?n
      \<and> enc' = write_blocks encrypted_data 0 (cbc_chain cipher K ?zeros ?ps)"
      by (simp add: events_since_def K_def)
  qed
  have A: "use_key = CREDENTIALS_PRIVATE_KEY \<longrightarrow>
            list_all (uses_key (device_key_bytes s)) (events_since s s')
            \<and> (st = SFX_ERR_NONE \<longrightarrow>
                 length (events_since s s') = ?n
                 \<and> enc' = write_blocks encrypted_data 0 (cbc_chain cipher (device_key_bytes s) ?zeros ?ps))
            \<and> MCU_API_aes_128_cbc_encrypt cipher encrypted_data data_to_encrypt aes_block_len
                 key2 use_key s = ((st, enc'), s')"
  proof
    assume p: "use_key = CREDENTIALS_PRIVATE_KEY"
    then have "K = device_key_bytes s" by (simp add: K_def selected_key_def)
    moreover have "MCU_API_aes_128_cbc_encrypt cipher encrypted_data data_to_encrypt aes_block_len
                 key2 use_key s = ((st, enc'), s')"
      using call p by (simp add: MCU_API_aes_128_cbc_encrypt_def)
    ultimately show "list_all (uses_key (device_key_bytes s)) (events_since s s')
            \<and> (st = SFX_ERR_NONE \<longrightarrow>
                 length (events_since s s') = ?n
                 \<and> enc' = write_blocks encrypted_data 0 (cbc_chain cipher (device_key_bytes s) ?zeros ?ps))
            \<and> MCU_API_aes_128_cbc_encrypt cipher encrypted_data data_to_encrypt aes_block_len
                 key2 use_key s = ((st, enc'), s')"
      using used ok by simp
  qed
  have B: "use_key = CREDENTIALS_KEY_IN_ARGUMENT \<longrightarrow>
            list_all (uses_key (key_argument_bytes key)) (events_since s s')
            \<and> (st = SFX_ERR_NONE \<longrightarrow>
                 length (events_since s s') = ?n
                 \<and> enc' = write_blocks encrypted_data 0
                      (cbc_chain cipher (key_argument_bytes key) ?zeros ?ps))"
  proof
    assume "use_key = CREDENTIALS_KEY_IN_ARGUMENT"
    then have "K = key_argument_bytes key" by (simp add: K_def selected_key_def)
    then show "list_all (uses_key (key_argument_bytes key)) (events_since s s')
            \<and> (st = SFX_ERR_NONE \<longrightarrow>
                 length (events_since s s') = ?n
                 \<and> enc' = write_blocks encrypted_data 0
                      (cbc_chain cipher (key_argument_bytes key) ?zeros ?ps))"
      using used ok by simp
  qed
  have C: "use_key \<noteq> CREDENTIALS_PRIVATE_KEY \<and> use_key \<noteq> CREDENTIALS_KEY_IN_ARGUMENT \<longrightarrow>
            st = MCU_ERR_API_AES \<and> enc' = encrypted_data \<and> s' = s"
    using call by (cases use_key) (auto simp: MCU_API_aes_128_cbc_encrypt_def)
  have D: "length key = AES_BLOCK_SIZE \<longrightarrow> key_argument_bytes key = key"
    by (simp add: key_argument_bytes_id)
  show ?thesis
    by (intro conjI A B C D status device_key_bytes_range)
qed

theorem MCU_API_aes_128_cbc_encrypt_key_selection_witness:
  "cipher_wf toy_cipher
   \<and> fst (MCU_API_aes_128_cbc_encrypt toy_cipher (replicate 16 0) (take 16 aes_test_data) 16
             aes_test_key CREDENTIALS_PRIVATE_KEY nvm_test_state)
       = (SFX_ERR_NONE, [5, 7, 9, 11, 13, 15, 17, 19, 21, 23, 25, 27, 29, 31, 33, 35])
   \<and> list_all (uses_key (device_key_bytes nvm_test_state))
        (events_since nvm_test_state
           (snd (MCU_API_aes_128_cbc_encrypt toy_cipher (replicate 16 0) (take 16 aes_test_data) 16
                   aes_test_key CREDENTIALS_PRIVATE_KEY nvm_test_state)))
   \<and> length (events_since nvm_test_state
           (snd (MCU_API_aes_128_cbc_encrypt toy_cipher (replicate 16 0) (take 16 aes_test_data) 16
                   aes_test_key CREDENTIALS_PRIVATE_KEY nvm_test_state)))
       = unat (16 :: sfx_u8) div AES_BLOCK_SIZE
   \<and> device_key_bytes nvm_test_state = [4, 5, 6, 7, 8, 9, 10, 11, 12, 13, 14, 15, 16, 17, 18, 19]
   \<and> MCU_API_aes_128_cbc_encrypt toy_cipher (replicate 16 0) (take 16 aes_test_data) 16
        aes_test_key (CREDENTIALS_OTHER 2) nvm_test_state
       = ((MCU_ERR_API_AES, replicate 16 0), nvm_test_state)"
proof -
  have ev: "fst (MCU_API_aes_128_cbc_encrypt toy_cipher (replicate 16 0) (take 16 aes_test_data) 16
             aes_test_key CREDENTIALS_PRIVATE_KEY nvm_test_state)
       = (SFX_ERR_NONE, [5, 7, 9, 11, 13, 15, 17, 19, 21, 23, 25, 27, 29, 31, 33, 35])"
    by code_simp
  then have h: "MCU_API_aes_128_cbc_encrypt toy_cipher (replicate 16 0) (take 16 aes_test_data) 16
             aes_test_key CREDENTIALS_PRIVATE_KEY nvm_test_state
       = ((SFX_ERR_NONE, [5, 7, 9, 11, 13, 15, 17, 19, 21, 23, 25, 27, 29, 31, 33, 35]),
          snd (MCU_API_aes_128_cbc_encrypt toy_cipher (replicate 16 0) (take 16 aes_test_data) 16
                 aes_test_key CREDENTIALS_PRIVATE_KEY nvm_test_state))"
    by (metis prod.collapse)
  have dk: "device_key_bytes nvm_test_state = [4, 5, 6, 7, 8, 9, 10, 11, 12, 13, 14, 15, 16, 17, 18, 19]"
    by code_simp
  note p = MCU_API_aes_128_cbc_encrypt_key_selection [OF toy_cipher_wf h]
  have a: "list_all (uses_key (device_key_bytes nvm_test_state))
        (events_since nvm_test_state
           (snd (MCU_API_aes_128_cbc_encrypt toy_cipher (replicate 16 0) (take 16 aes_test_data) 16
                   aes_test_key CREDENTIALS_PRIVATE_KEY nvm_test_state)))"
    and b: "length (events_since nvm_test_state
           (snd (MCU_API_aes_128_cbc_encrypt toy_cipher (replicate 16 0) (take 16 aes_test_data) 16
                   aes_test_key CREDENTIALS_PRIVATE_KEY nvm_test_state)))
       = unat (16 :: sfx_u8) div AES_BLOCK_SIZE"
    using p by blast+
  obtain st enc' s' where o: "MCU_API_aes_128_cbc_encrypt toy_cipher (replicate 16 0)
        (take 16 aes_test_data) 16 aes_test_key (CREDENTIALS_OTHER 2) nvm_test_state = ((st, enc'), s')"
    by (metis surj_pair)
  from MCU_API_aes_128_cbc_encrypt_key_selection [OF toy_cipher_wf o]
  have "st = MCU_ERR_API_AES \<and> enc' = replicate 16 0 \<and> s' = nvm_test_state"
    by simp
  with o have c: "MCU_API_aes_128_cbc_encrypt toy_cipher (replicate 16 0) (take 16 aes_test_data) 16
        aes_test_key (CREDENTIALS_OTHER 2) nvm_test_state
       = ((MCU_ERR_API_AES, replicate 16 0), nvm_test_state)"
    by simp
  show ?thesis
    by (intro conjI toy_cipher_wf ev a b dk c)
qed






subsection \<open>DMA channels\<close>

lemma and_push_bit_neq_0_iff: "(x :: 32 word) AND push_bit n 1 \<noteq> 0 \<longleftrightarrow> bit x n"
  using and_exp_eq_0_iff_not_bit [of x n] by simp

lemma dma_exec_tcif_cases:
  "dma1_channel3_tcif (dma_exec s op) = dma1_channel3_tcif s
   \<or> (op = Irq_Channel2_3 \<and> dma1_channel3_tcif (dma_exec s op) = 1
        \<and> bit (DMA1_ISR s) 9 \<and> bit (DMA1_CCR3 s) 1)
   \<or> ((op = Op_start_channel3 \<or> op = Op_stop_channel3) \<and> dma1_channel3_tcif (dma_exec s op) = 0)"
proof (cases op)
  case Irq_Channel2_3
  have b9: "bit (DMA1_ISR s) 9" if "DMA1_ISR s AND push_bit 9 1 \<noteq> 0"
    using that by (simp only: and_push_bit_neq_0_iff)
  have b1: "bit (DMA1_CCR3 s) 1" if "DMA1_CCR3 s AND push_bit 1 1 \<noteq> 0"
    using that by (simp only: and_push_bit_neq_0_iff)
  show ?thesis
    using Irq_Channel2_3 b9 b1
    by (auto simp: DMA1_Channel2_3_IRQHandler_def Let_def simp del: push_bit_of_1)
qed (simp_all add: DMA1_init_channel3_def DMA1_start_channel3_def DMA1_stop_channel3_def
      DMA1_set_channel3_source_addr_def DMA1_init_channel6_def DMA1_start_channel6_def
      DMA1_stop_channel6_def DMA1_set_channel6_dest_addr_def DMA1_disable_def
      DMA1_Channel4_5_6_7_IRQHandler_def Let_def)

lemma tcif_zero_foldl:
  "Irq_Channel2_3 \<notin> set ops \<Longrightarrow> dma1_channel3_tcif s = 0
   \<Longrightarrow> dma1_channel3_tcif (foldl dma_exec s ops) = 0"
proof (induction ops arbitrary: s)
  case Nil
  then show ?case by simp
next
  case (Cons op ops)
  from Cons.prems have "op \<noteq> Irq_Channel2_3" by auto
  with dma_exec_tcif_cases [of s op] Cons.prems(2)
  have "dma1_channel3_tcif (dma_exec s op) = 0" by auto
  with Cons show ?case by simp
qed

text \<open>
  C10. The channel-3 completion flag has one producer and one consumer side. Whatever
  happens to the driver (a call of any function of dma.c, either interrupt handler, a
  change of the interrupt status register by the hardware), the flag changes only in two
  ways: the channel 2-3 interrupt handler sets it to 1, and then the transfer-complete
  status bit (bit 9 of ISR) and the transfer-complete interrupt-enable bit (bit 1 of
  CCR3) were set; or \<open>DMA1_start_channel3\<close> or \<open>DMA1_stop_channel3\<close> clears it to 0.
  The handler does set it when both bits are set. So right after a start or a stop
  \<open>DMA1_get_channel3_status\<close> returns 0, and it keeps returning 0 through every
  sequence of events in which the channel 2-3 interrupt handler does not run.
\<close>

theorem dma1_channel3_tcif_one_producer_one_consumer:
  "(dma1_channel3_tcif (dma_exec s op) \<noteq> dma1_channel3_tcif s \<longrightarrow>
      (op = Irq_Channel2_3 \<and> dma1_channel3_tcif (dma_exec s op) = 1
         \<and> bit (DMA1_ISR s) 9 \<and> bit (DMA1_CCR3 s) 1)
      \<or> ((op = Op_start_channel3 \<or> op = Op_stop_channel3)
           \<and> dma1_channel3_tcif (dma_exec s op) = 0))
   \<and> (bit (DMA1_ISR s) 9 \<and> bit (DMA1_CCR3 s) 1 \<longrightarrow>
        DMA1_get_channel3_status (DMA1_Channel2_3_IRQHandler s) = 1)
   \<and> DMA1_get_channel3_status (DMA1_start_channel3 s) = 0
   \<and> DMA1_get_channel3_status (DMA1_stop_channel3 s) = 0
   \<and> (Irq_Channel2_3 \<notin> set ops \<longrightarrow>
        DMA1_get_channel3_status (foldl dma_exec (DMA1_start_channel3 s) ops) = 0
        \<and> DMA1_get_channel3_status (foldl dma_exec (DMA1_stop_channel3 s) ops) = 0)"
proof -
  have start0: "dma1_channel3_tcif (DMA1_start_channel3 s) = 0"
    by (simp add: DMA1_start_channel3_def Let_def)
  have stop0: "dma1_channel3_tcif (DMA1_stop_channel3 s) = 0"
    by (simp add: DMA1_stop_channel3_def Let_def)
  have irq: "dma1_channel3_tcif (DMA1_Channel2_3_IRQHandler s) = 1"
    if "bit (DMA1_ISR s) 9" "bit (DMA1_CCR3 s) 1"
  proof -
    from that have "DMA1_ISR s AND push_bit 9 1 \<noteq> 0" "DMA1_CCR3 s AND push_bit 1 1 \<noteq> 0"
      by (simp_all only: and_push_bit_neq_0_iff)
    then show ?thesis
      by (simp add: DMA1_Channel2_3_IRQHandler_def Let_def del: push_bit_of_1)
  qed
  show ?thesis
    using dma_exec_tcif_cases [of s op] start0 stop0 irq
      tcif_zero_foldl [of ops "DMA1_start_channel3 s"]
      tcif_zero_foldl [of ops "DMA1_stop_channel3 s"]
    by (auto simp: DMA1_get_channel3_status_def)
qed

theorem dma1_channel3_tcif_one_producer_one_consumer_witness:
  "dma1_channel3_tcif
     (dma_exec (dma_exec (DMA1_start_channel3 (DMA1_init_channel3 dma_state_reset))
                  (Hw_set_ISR 0x200)) Irq_Channel2_3)
     \<noteq> dma1_channel3_tcif
          (dma_exec (DMA1_start_channel3 (DMA1_init_channel3 dma_state_reset)) (Hw_set_ISR 0x200))
   \<and> bit (DMA1_ISR (dma_exec (DMA1_start_channel3 (DMA1_init_channel3 dma_state_reset))
                       (Hw_set_ISR 0x200))) 9
   \<and> bit (DMA1_CCR3 (dma_exec (DMA1_start_channel3 (DMA1_init_channel3 dma_state_reset))
                        (Hw_set_ISR 0x200))) 1
   \<and> Irq_Channel2_3 \<notin> set [Op_set_channel3_source_addr 0x20000000 4, Hw_set_ISR 0x200,
                              Irq_Channel4_5_6_7, Op_get_channel3_status]
   \<and> DMA1_get_channel3_status
        (foldl dma_exec
           (DMA1_start_channel3
              (dma_exec (DMA1_start_channel3 (DMA1_init_channel3 dma_state_reset))
                 (Hw_set_ISR 0x200)))
           [Op_set_channel3_source_addr 0x20000000 4, Hw_set_ISR 0x200,
            Irq_Channel4_5_6_7, Op_get_channel3_status]) = 0"
  using dma1_channel3_tcif_one_producer_one_consumer
          [of "dma_exec (DMA1_start_channel3 (DMA1_init_channel3 dma_state_reset)) (Hw_set_ISR 0x200)"
              Irq_Channel2_3
              "[Op_set_channel3_source_addr 0x20000000 4, Hw_set_ISR 0x200,
                Irq_Channel4_5_6_7, Op_get_channel3_status]"]
  by (simp add: DMA1_start_channel3_def DMA1_init_channel3_def dma_state_reset_def
        DMA1_Channel2_3_IRQHandler_def Let_def)

lemma dma_exec_en3:
  "bit (DMA1_CCR3 (dma_exec s op)) 0
     = (if op = Op_start_channel3 then True
        else if op = Op_stop_channel3 then False
        else bit (DMA1_CCR3 s) 0)"
  by (cases op)
     (simp_all add: DMA1_init_channel3_def DMA1_start_channel3_def DMA1_stop_channel3_def
        DMA1_set_channel3_source_addr_def DMA1_init_channel6_def DMA1_start_channel6_def
        DMA1_stop_channel6_def DMA1_set_channel6_dest_addr_def DMA1_disable_def
        DMA1_Channel2_3_IRQHandler_def DMA1_Channel4_5_6_7_IRQHandler_def Let_def bit_simps)

lemma dma_exec_en6:
  "bit (DMA1_CCR6 (dma_exec s op)) 0
     = (if op = Op_start_channel6 then True
        else if op = Op_stop_channel6 then False
        else bit (DMA1_CCR6 s) 0)"
  by (cases op)
     (simp_all add: DMA1_init_channel3_def DMA1_start_channel3_def DMA1_stop_channel3_def
        DMA1_set_channel3_source_addr_def DMA1_init_channel6_def DMA1_start_channel6_def
        DMA1_stop_channel6_def DMA1_set_channel6_dest_addr_def DMA1_disable_def
        DMA1_Channel2_3_IRQHandler_def DMA1_Channel4_5_6_7_IRQHandler_def Let_def bit_simps)

lemma dma_exec_addr3:
  "DMA1_CMAR3 (dma_exec s op)
     = (case op of Op_set_channel3_source_addr a n \<Rightarrow> a | _ \<Rightarrow> DMA1_CMAR3 s)
   \<and> DMA1_CNDTR3 (dma_exec s op)
     = (case op of Op_set_channel3_source_addr a n \<Rightarrow> ucast n | _ \<Rightarrow> DMA1_CNDTR3 s)"
  by (cases op)
     (simp_all add: DMA1_init_channel3_def DMA1_start_channel3_def DMA1_stop_channel3_def
        DMA1_set_channel3_source_addr_def DMA1_init_channel6_def DMA1_start_channel6_def
        DMA1_stop_channel6_def DMA1_set_channel6_dest_addr_def DMA1_disable_def
        DMA1_Channel2_3_IRQHandler_def DMA1_Channel4_5_6_7_IRQHandler_def Let_def)

lemma dma_exec_addr6:
  "DMA1_CMAR6 (dma_exec s op)
     = (case op of Op_set_channel6_dest_addr a n \<Rightarrow> a | _ \<Rightarrow> DMA1_CMAR6 s)
   \<and> DMA1_CNDTR6 (dma_exec s op)
     = (case op of Op_set_channel6_dest_addr a n \<Rightarrow> ucast n | _ \<Rightarrow> DMA1_CNDTR6 s)"
  by (cases op)
     (simp_all add: DMA1_init_channel3_def DMA1_start_channel3_def DMA1_stop_channel3_def
        DMA1_set_channel3_source_addr_def DMA1_init_channel6_def DMA1_start_channel6_def
        DMA1_stop_channel6_def DMA1_set_channel6_dest_addr_def DMA1_disable_def
        DMA1_Channel2_3_IRQHandler_def DMA1_Channel4_5_6_7_IRQHandler_def Let_def)

lemma en3_kept_foldl:
  "Op_stop_channel3 \<notin> set ops \<Longrightarrow> bit (DMA1_CCR3 s) 0
   \<Longrightarrow> bit (DMA1_CCR3 (foldl dma_exec s ops)) 0"
proof (induction ops arbitrary: s)
  case Nil
  then show ?case by simp
next
  case (Cons op ops)
  from Cons.prems have "bit (DMA1_CCR3 (dma_exec s op)) 0"
    by (auto simp: dma_exec_en3)
  with Cons show ?case by simp
qed

lemma en3_clear_foldl:
  "Op_start_channel3 \<notin> set ops \<Longrightarrow> \<not> bit (DMA1_CCR3 s) 0
   \<Longrightarrow> \<not> bit (DMA1_CCR3 (foldl dma_exec s ops)) 0"
proof (induction ops arbitrary: s)
  case Nil
  then show ?case by simp
next
  case (Cons op ops)
  from Cons.prems have "\<not> bit (DMA1_CCR3 (dma_exec s op)) 0"
    by (auto simp: dma_exec_en3)
  with Cons show ?case by simp
qed


lemma en6_kept_foldl:
  "Op_stop_channel6 \<notin> set ops \<Longrightarrow> bit (DMA1_CCR6 s) 0
   \<Longrightarrow> bit (DMA1_CCR6 (foldl dma_exec s ops)) 0"
proof (induction ops arbitrary: s)
  case Nil
  then show ?case by simp
next
  case (Cons op ops)
  from Cons.prems have "bit (DMA1_CCR6 (dma_exec s op)) 0"
    by (auto simp: dma_exec_en6)
  with Cons show ?case by simp
qed

lemma en6_clear_foldl:
  "Op_start_channel6 \<notin> set ops \<Longrightarrow> \<not> bit (DMA1_CCR6 s) 0
   \<Longrightarrow> \<not> bit (DMA1_CCR6 (foldl dma_exec s ops)) 0"
proof (induction ops arbitrary: s)
  case Nil
  then show ?case by simp
next
  case (Cons op ops)
  from Cons.prems have "\<not> bit (DMA1_CCR6 (dma_exec s op)) 0"
    by (auto simp: dma_exec_en6)
  with Cons show ?case by simp
qed

text \<open>
  C7, as stated, fails: the driver has no armed-state check. After init and start the
  channel is armed (EN, bit 0 of CCR3, is set); without any stop,
  \<open>DMA1_set_channel3_source_addr\<close> still writes the address and length registers, and
  a second \<open>DMA1_start_channel3\<close> still takes effect (it clears a completion flag that was
  set and leaves the channel armed).
\<close>

theorem DMA1_reconfigure_armed_channel3_counterexample:
  "bit (DMA1_CCR3 (DMA1_start_channel3 (DMA1_init_channel3 dma_state_reset))) 0
   \<and> DMA1_CMAR3 (DMA1_start_channel3 (DMA1_init_channel3 dma_state_reset)) = 0
   \<and> DMA1_CMAR3 (DMA1_set_channel3_source_addr 0x20000100 16
                   (DMA1_start_channel3 (DMA1_init_channel3 dma_state_reset))) = 0x20000100
   \<and> DMA1_CNDTR3 (DMA1_set_channel3_source_addr 0x20000100 16
                    (DMA1_start_channel3 (DMA1_init_channel3 dma_state_reset))) = 16
   \<and> bit (DMA1_CCR3 (DMA1_set_channel3_source_addr 0x20000100 16
                        (DMA1_start_channel3 (DMA1_init_channel3 dma_state_reset)))) 0
   \<and> dma1_channel3_tcif
        (DMA1_Channel2_3_IRQHandler
           ((DMA1_start_channel3 (DMA1_init_channel3 dma_state_reset))\<lparr>DMA1_ISR := 0x200\<rparr>)) = 1
   \<and> dma1_channel3_tcif
        (DMA1_start_channel3
           (DMA1_Channel2_3_IRQHandler
              ((DMA1_start_channel3 (DMA1_init_channel3 dma_state_reset))\<lparr>DMA1_ISR := 0x200\<rparr>))) = 0"
  by (simp add: DMA1_start_channel3_def DMA1_init_channel3_def dma_state_reset_def
        DMA1_set_channel3_source_addr_def DMA1_Channel2_3_IRQHandler_def Let_def)

text \<open>
  C7, amended. The driver does not check whether a channel is armed: whatever the state,
  \<open>DMA1_set_channel3_source_addr\<close> and \<open>DMA1_set_channel6_dest_addr\<close> write the address
  and the length registers and leave the control register as it is, and
  \<open>DMA1_start_channel3\<close> and \<open>DMA1_start_channel6\<close> set the enable bit. Over every
  function of dma.c, both interrupt handlers and any hardware change of the interrupt
  status register, the enable bit of a channel is set by the start function of that
  channel only and cleared by the stop function of that channel only (the two init
  functions, the set-address functions, \<open>DMA1_disable\<close>, the handlers and the functions
  of the other channel leave it as it is), and the address and length registers of a
  channel are written by its set-address function only. Hence along any sequence of
  operations without a stop an armed channel stays armed, and along any sequence without
  a start a stopped channel stays stopped: stopping a channel before it is reconfigured
  or restarted is left to the caller.
\<close>

theorem DMA1_start_and_reconfigure_unconditional:
  "DMA1_CMAR3 (DMA1_set_channel3_source_addr a n s) = a
   \<and> DMA1_CNDTR3 (DMA1_set_channel3_source_addr a n s) = ucast n
   \<and> DMA1_CCR3 (DMA1_set_channel3_source_addr a n s) = DMA1_CCR3 s
   \<and> bit (DMA1_CCR3 (DMA1_start_channel3 s)) 0
   \<and> \<not> bit (DMA1_CCR3 (DMA1_stop_channel3 s)) 0
   \<and> DMA1_CMAR6 (DMA1_set_channel6_dest_addr a n s) = a
   \<and> DMA1_CNDTR6 (DMA1_set_channel6_dest_addr a n s) = ucast n
   \<and> DMA1_CCR6 (DMA1_set_channel6_dest_addr a n s) = DMA1_CCR6 s
   \<and> bit (DMA1_CCR6 (DMA1_start_channel6 s)) 0
   \<and> \<not> bit (DMA1_CCR6 (DMA1_stop_channel6 s)) 0
   \<and> bit (DMA1_CCR3 (dma_exec s op)) 0
       = (if op = Op_start_channel3 then True
          else if op = Op_stop_channel3 then False
          else bit (DMA1_CCR3 s) 0)
   \<and> bit (DMA1_CCR6 (dma_exec s op)) 0
       = (if op = Op_start_channel6 then True
          else if op = Op_stop_channel6 then False
          else bit (DMA1_CCR6 s) 0)
   \<and> DMA1_CMAR3 (dma_exec s op)
       = (case op of Op_set_channel3_source_addr a n \<Rightarrow> a | _ \<Rightarrow> DMA1_CMAR3 s)
   \<and> DMA1_CNDTR3 (dma_exec s op)
       = (case op of Op_set_channel3_source_addr a n \<Rightarrow> ucast n | _ \<Rightarrow> DMA1_CNDTR3 s)
   \<and> DMA1_CMAR6 (dma_exec s op)
       = (case op of Op_set_channel6_dest_addr a n \<Rightarrow> a | _ \<Rightarrow> DMA1_CMAR6 s)
   \<and> DMA1_CNDTR6 (dma_exec s op)
       = (case op of Op_set_channel6_dest_addr a n \<Rightarrow> ucast n | _ \<Rightarrow> DMA1_CNDTR6 s)
   \<and> (Op_stop_channel3 \<notin> set ops \<and> bit (DMA1_CCR3 s) 0
        \<longrightarrow> bit (DMA1_CCR3 (foldl dma_exec s ops)) 0)
   \<and> (Op_start_channel3 \<notin> set ops \<and> \<not> bit (DMA1_CCR3 s) 0
        \<longrightarrow> \<not> bit (DMA1_CCR3 (foldl dma_exec s ops)) 0)
   \<and> (Op_stop_channel6 \<notin> set ops \<and> bit (DMA1_CCR6 s) 0
        \<longrightarrow> bit (DMA1_CCR6 (foldl dma_exec s ops)) 0)
   \<and> (Op_start_channel6 \<notin> set ops \<and> \<not> bit (DMA1_CCR6 s) 0
        \<longrightarrow> \<not> bit (DMA1_CCR6 (foldl dma_exec s ops)) 0)"
proof -
  have direct:
    "DMA1_CMAR3 (DMA1_set_channel3_source_addr a n s) = a
     \<and> DMA1_CNDTR3 (DMA1_set_channel3_source_addr a n s) = ucast n
     \<and> DMA1_CCR3 (DMA1_set_channel3_source_addr a n s) = DMA1_CCR3 s
     \<and> bit (DMA1_CCR3 (DMA1_start_channel3 s)) 0
     \<and> \<not> bit (DMA1_CCR3 (DMA1_stop_channel3 s)) 0
     \<and> DMA1_CMAR6 (DMA1_set_channel6_dest_addr a n s) = a
     \<and> DMA1_CNDTR6 (DMA1_set_channel6_dest_addr a n s) = ucast n
     \<and> DMA1_CCR6 (DMA1_set_channel6_dest_addr a n s) = DMA1_CCR6 s
     \<and> bit (DMA1_CCR6 (DMA1_start_channel6 s)) 0
     \<and> \<not> bit (DMA1_CCR6 (DMA1_stop_channel6 s)) 0"
    by (simp add: DMA1_set_channel3_source_addr_def DMA1_start_channel3_def
          DMA1_stop_channel3_def DMA1_set_channel6_dest_addr_def DMA1_start_channel6_def
          DMA1_stop_channel6_def Let_def bit_simps)
  have k3: "Op_stop_channel3 \<notin> set ops \<and> bit (DMA1_CCR3 s) 0
        \<longrightarrow> bit (DMA1_CCR3 (foldl dma_exec s ops)) 0"
    using en3_kept_foldl [of ops s] by blast
  have c3: "Op_start_channel3 \<notin> set ops \<and> \<not> bit (DMA1_CCR3 s) 0
        \<longrightarrow> \<not> bit (DMA1_CCR3 (foldl dma_exec s ops)) 0"
    using en3_clear_foldl [of ops s] by blast
  have k6: "Op_stop_channel6 \<notin> set ops \<and> bit (DMA1_CCR6 s) 0
        \<longrightarrow> bit (DMA1_CCR6 (foldl dma_exec s ops)) 0"
    using en6_kept_foldl [of ops s] by blast
  have c6: "Op_start_channel6 \<notin> set ops \<and> \<not> bit (DMA1_CCR6 s) 0
        \<longrightarrow> \<not> bit (DMA1_CCR6 (foldl dma_exec s ops)) 0"
    using en6_clear_foldl [of ops s] by blast
  from direct dma_exec_en3 [of s op] dma_exec_en6 [of s op]
    dma_exec_addr3 [of s op] dma_exec_addr6 [of s op] k3 c3 k6 c6
  show ?thesis by blast
qed

theorem DMA1_start_and_reconfigure_unconditional_witness:
  "Op_stop_channel3 \<notin> set [Op_set_channel3_source_addr 0x20000100 16, Op_init_channel3,
                               Hw_set_ISR 0x200, Irq_Channel2_3, Op_start_channel3, Op_disable,
                               Op_stop_channel6]
   \<and> bit (DMA1_CCR3 (DMA1_start_channel3 (DMA1_init_channel3 dma_state_reset))) 0
   \<and> bit (DMA1_CCR3 (foldl dma_exec (DMA1_start_channel3 (DMA1_init_channel3 dma_state_reset))
                        [Op_set_channel3_source_addr 0x20000100 16, Op_init_channel3,
                         Hw_set_ISR 0x200, Irq_Channel2_3, Op_start_channel3, Op_disable,
                         Op_stop_channel6])) 0
   \<and> Op_start_channel6 \<notin> set [Op_init_channel6 0x40004824,
                                Op_set_channel6_dest_addr 0x20000200 8, Op_start_channel3]
   \<and> \<not> bit (DMA1_CCR6 dma_state_reset) 0
   \<and> \<not> bit (DMA1_CCR6 (foldl dma_exec dma_state_reset
                          [Op_init_channel6 0x40004824,
                           Op_set_channel6_dest_addr 0x20000200 8, Op_start_channel3])) 0"
proof -
  have a: "Op_stop_channel3 \<notin> set [Op_set_channel3_source_addr 0x20000100 16, Op_init_channel3,
                               Hw_set_ISR 0x200, Irq_Channel2_3, Op_start_channel3, Op_disable,
                               Op_stop_channel6]"
    by simp
  have b: "bit (DMA1_CCR3 (DMA1_start_channel3 (DMA1_init_channel3 dma_state_reset))) 0"
    by (simp add: DMA1_start_channel3_def DMA1_init_channel3_def dma_state_reset_def Let_def)
  have c: "Op_start_channel6 \<notin> set [Op_init_channel6 0x40004824,
                                Op_set_channel6_dest_addr 0x20000200 8, Op_start_channel3]"
    by simp
  have d: "\<not> bit (DMA1_CCR6 dma_state_reset) 0"
    by (simp add: dma_state_reset_def)
  from DMA1_start_and_reconfigure_unconditional
         [where s = "DMA1_start_channel3 (DMA1_init_channel3 dma_state_reset)"
            and ops = "[Op_set_channel3_source_addr 0x20000100 16, Op_init_channel3,
                        Hw_set_ISR 0x200, Irq_Channel2_3, Op_start_channel3, Op_disable,
                        Op_stop_channel6]"] a b
  have e: "bit (DMA1_CCR3 (foldl dma_exec (DMA1_start_channel3 (DMA1_init_channel3 dma_state_reset))
                        [Op_set_channel3_source_addr 0x20000100 16, Op_init_channel3,
                         Hw_set_ISR 0x200, Irq_Channel2_3, Op_start_channel3, Op_disable,
                         Op_stop_channel6])) 0"
    by blast
  from DMA1_start_and_reconfigure_unconditional
         [where s = dma_state_reset
            and ops = "[Op_init_channel6 0x40004824,
                        Op_set_channel6_dest_addr 0x20000200 8, Op_start_channel3]"] c d
  have f: "\<not> bit (DMA1_CCR6 (foldl dma_exec dma_state_reset
                          [Op_init_channel6 0x40004824,
                           Op_set_channel6_dest_addr 0x20000200 8, Op_start_channel3])) 0"
    by blast
  show ?thesis by (intro conjI a b e c d f)
qed

subsection \<open>Chip select around an SPI transfer\<close>

text \<open>
  C6. Whatever the SPI driver answers, \<open>S2LP_HW_spi_write_read_8\<close> issues exactly three
  calls, in this order: chip select low, one SPI transfer of the caller's data, chip
  select high; so the chip select is asserted before the transfer, it is high when the
  function returns on the success path and on the failure path, and the transfer is
  never repeated. The function returns success when the transfer succeeds, and the
  SPI error base plus the status of the transfer when it fails.
\<close>

theorem S2LP_HW_spi_write_read_8_chip_select_bracket:
  "s2lp_hw_trace (snd (S2LP_HW_spi_write_read_8 base tx_data rx_data transfer_size s))
     = s2lp_hw_trace s
       @ [Ev_GPIO_write_CS 0, Ev_SPI_write_read_8 tx_data transfer_size, Ev_GPIO_write_CS 1]
   \<and> gpio_s2lp_cs (snd (S2LP_HW_spi_write_read_8 base tx_data rx_data transfer_size s)) = 1
   \<and> fst (fst (S2LP_HW_spi_write_read_8 base tx_data rx_data transfer_size s))
       = (if next_spi_status s = SPI_SUCCESS then S2LP_SUCCESS else base + next_spi_status s)"
  by (cases "spi_answers s")
     (auto simp: S2LP_HW_spi_write_read_8_def GPIO_write_CS_def SPI_write_read_8_def
        SPI_exit_error_def next_spi_status_def Let_def split: prod.splits)

end
